theory Spec2Isabelle
  imports Main "HOL-Library.Multiset" "HOL-Library.Stream" "HOL-Library.Sublist"
begin

section \<open>Python values the two programs rely on\<close>

text \<open>
  Exceptions are values. Only the classes that the two scripts can meet are listed; all
  of them derive from Python's \<open>Exception\<close>. The message of a \<open>RuntimeError\<close> is kept
  without the data the source interpolates into it.
\<close>

datatype py_error =
    ValueError | IndexError | KeyError | AssertionError | AttributeError | TypeError
  | RuntimeError string | TimeoutError | RequestException | HTTPError | JSONDecodeError

definition bindE :: "'e + 'a \<Rightarrow> ('a \<Rightarrow> 'e + 'b) \<Rightarrow> 'e + 'b" where
  "bindE r f = (case r of Inl e \<Rightarrow> Inl e | Inr v \<Rightarrow> f v)"

subsection \<open>The module-level random generator\<close>

text \<open>
  \<open>random.seed(42)\<close> fixes the state of the generator; every later call of the
  \<open>random\<close> module draws from it in program order. The state is modelled as the stream of
  raw draws still to come: \<open>randbelow n\<close> (CPython's \<open>_randbelow\<close>) takes the next one and
  returns a number below \<open>n\<close>. The functions \<open>choice\<close>, \<open>sample\<close> and \<open>shuffle\<close> follow
  CPython's \<open>random.py\<close>; \<open>sample\<close> is the branch for populations of at most 21 elements,
  the only one the program reaches (its population has four elements).
\<close>

type_synonym rng = "nat stream"

definition randbelow :: "nat \<Rightarrow> rng \<Rightarrow> nat \<times> rng" where
  "randbelow n g = (shd g mod n, stl g)"

definition choice :: "'a list \<Rightarrow> rng \<Rightarrow> py_error + ('a \<times> rng)" where
  "choice seq g =
     (if seq = [] then Inl IndexError
      else (let (i, g1) = randbelow (length seq) g in Inr (seq ! i, g1)))"

fun sample_loop :: "'a list \<Rightarrow> nat \<Rightarrow> nat \<Rightarrow> rng \<Rightarrow> 'a list \<times> rng" where
  "sample_loop pool m 0 g = ([], g)"
| "sample_loop pool m (Suc k) g =
     (let (j, g1) = randbelow m g;
          (rest, g2) = sample_loop (pool[j := pool ! (m - 1)]) (m - 1) k g1
      in (pool ! j # rest, g2))"

definition sample :: "'a list \<Rightarrow> int \<Rightarrow> rng \<Rightarrow> py_error + ('a list \<times> rng)" where
  "sample population k g =
     (let n = length population in
      if \<not> (0 \<le> k \<and> k \<le> int n) then Inl ValueError
      else Inr (sample_loop population n (nat k) g))"

fun shuffle_loop :: "nat \<Rightarrow> 'a list \<Rightarrow> rng \<Rightarrow> 'a list \<times> rng" where
  "shuffle_loop 0 x g = (x, g)"
| "shuffle_loop (Suc i') x g =
     (let i = Suc i'; (j, g1) = randbelow (i + 1) g
      in shuffle_loop i' (x[i := x ! j, j := x ! i]) g1)"

definition shuffle :: "'a list \<Rightarrow> rng \<Rightarrow> 'a list \<times> rng" where
  "shuffle x g = shuffle_loop (length x - 1) x g"

section \<open>generate\_prompts.py\<close>

subsection \<open>Trait pools\<close>

definition SUIT_STYLES :: "string list" where
  "SUIT_STYLES = [
    ''black suit black tie'', ''black suit black turtleneck'',
    ''black suit open collar black shirt'', ''black suit white shirt loose tie'',
    ''black suit white shirt skinny black tie'', ''black double-breasted suit'',
    ''black three-piece suit with vest visible'', ''black suit mandarin collar'',
    ''black suit buttoned all the way up'', ''black suit rolled sleeves'',
    ''rumpled black suit no tie'', ''sharp black suit black shirt'',
    ''crisp black suit white shirt black tie'', ''black suit with pocket square'']"

definition SUNGLASSES :: "string list" where
  "SUNGLASSES = [
    ''black aviator sunglasses'', ''black wayfarer sunglasses'',
    ''round black sunglasses'', ''rectangular black sunglasses'',
    ''wraparound black sunglasses'', ''black clubmaster sunglasses'',
    ''cat-eye black sunglasses'', ''oval black sunglasses'',
    ''angular black sunglasses'', ''thin rectangular black sunglasses'']"

definition HAIR_STYLES :: "string list" where
  "HAIR_STYLES = [
    ''short spiky hair'', ''long straight hair'', ''messy curly hair'',
    ''slicked back hair'', ''short buzzcut'', ''long wavy hair with bangs'',
    ''short textured hair with undercut'', ''medium tousled hair'',
    ''neat short hair with side part'', ''short choppy hair'',
    ''tight braids pulled back'', ''short flat-top military haircut'',
    ''messy medium hair with bangs'', ''long hair in a bun'', ''mohawk'',
    ''shoulder length straight hair'']"

definition HAIR_COLORS :: "string list" where
  "HAIR_COLORS = [
    ''black'', ''dark brown'', ''light brown'', ''blonde'', ''dark blonde'',
    ''platinum blonde'', ''red'', ''dark red'', ''auburn'', ''silver-white'',
    ''dusty blue'', ''pink'', ''gray'', ''jet black'', ''strawberry blonde'',
    ''purple'', ''green-tinted black'']"

definition SKIN_TONES :: "string list" where
  "SKIN_TONES = [
    ''pale skin'', ''light skin'', ''fair pink skin'', ''light tan skin'',
    ''olive skin'', ''warm medium skin'', ''tan skin'', ''warm golden-brown skin'',
    ''brown skin'', ''dark brown skin'', ''deep dark skin'', ''pale porcelain skin'']"

definition ACCESSORIES :: "string list" where
  "ACCESSORIES = [
    ''coiled clear earpiece'', ''radio earpiece with coiled cord'',
    ''single earpiece'', ''american flag lapel pin'', ''silver lapel pin'',
    ''badge lanyard tucked into jacket'', ''pen clipped to breast pocket'',
    ''classified folder peeking from jacket'', ''cigarette behind ear'',
    ''silver tie clip'', ''chain connecting ear cuff to collar'',
    ''dog tags tucked under shirt'', ''wristwatch peeking from sleeve'']"

definition TATTOOS :: "string list" where
  "TATTOOS = [
    ''neck tattoo peeking above collar'', ''hand tattoos visible'',
    ''sleeve tattoo peeking from cuff'', ''teardrop face tattoo'',
    ''spider web tattoo on neck'', ''barcode tattoo on neck'',
    ''cross tattoo under eye'', ''snake tattoo crawling up neck'',
    ''rose tattoo behind ear'', ''skull tattoo behind ear'',
    ''flame tattoo on neck'', ''knuckle tattoos'', ''star tattoo behind ear'',
    ''dagger tattoo on hand'', ''forearm tattoos visible'']"

definition PIERCINGS :: "string list" where
  "PIERCINGS = [
    ''gold nose stud'', ''silver nose ring'', ''septum ring'', ''bull nose ring'',
    ''eyebrow piercing'', ''lip ring'', ''double nose ring'',
    ''industrial ear piercing'', ''double hoop earring'', ''ear cuff'',
    ''chain nose ring to ear cuff'', ''tongue piercing'']"

definition FRECKLES :: "string list" where
  "FRECKLES = [
    ''freckles on nose'', ''scattered freckles across cheeks'',
    ''light freckles'', ''subtle freckles'']"

definition BACKGROUNDS :: "string list" where
  "BACKGROUNDS = [
    ''grainy surveillance footage of parking garage'',
    ''underground bunker with red emergency lights'',
    ''cork board with red string conspiracy wall'',
    ''foggy black helicopter tarmac'',
    ''empty interrogation room single lightbulb'',
    ''redacted documents scattered desk'',
    ''shadowy hallway with flickering fluorescent lights'',
    ''desert highway Area 51 searchlights'',
    ''secret underground lab with green glowing tubes'',
    ''rainy night embassy rooftop with satellite dishes'',
    ''long dark corridor with single red exit sign'',
    ''foggy bridge at midnight with distant headlights'',
    ''empty parking structure with flickering lights'',
    ''dark server room with rows of blinking blue lights'',
    ''restricted military hangar with draped tarps'',
    ''desert night sky with distant unmarked warehouse'',
    ''dimly lit war room with glowing monitors'',
    ''satellite dish array in desert at night'',
    ''blacked out SUV motorcade on rainy street'',
    ''abandoned warehouse with scattered classified files'',
    ''rooftop at night with distant radio tower blinking red'',
    ''deep underground tunnel with pipes and dim yellow lights'',
    ''static-filled TV screens in dark control room'',
    ''airport tarmac with unmarked black helicopter'',
    ''night sky with blurry UFO and searchlights'',
    ''Pentagon hallway with fluorescent lighting'',
    ''blurry redacted documents and filing cabinets'']"

definition EXPRESSIONS :: "string list" where
  "EXPRESSIONS = [
    ''tiny neutral mouth'', ''tiny flat mouth'', ''small expressionless mouth'',
    ''small flat mouth'', ''tiny straight mouth'']"

subsection \<open>Rarity tables and optional categories\<close>

text \<open>A \<open>dict\<close> literal is kept as the list of its items in insertion order.\<close>

definition RARITY_WEIGHTS :: "(int \<times> int) list" where
  "RARITY_WEIGHTS = [(0, 400), (1, 760), (2, 600), (3, 200), (4, 40)]"

definition RARITY_LABELS :: "(int \<times> string) list" where
  "RARITY_LABELS =
     [(0, ''Common''), (1, ''Uncommon''), (2, ''Rare''), (3, ''Legendary''), (4, ''Legendary'')]"

definition OPTIONAL_CATEGORIES :: "(string \<times> string list) list" where
  "OPTIONAL_CATEGORIES =
     [(''accessory'', ACCESSORIES), (''tattoo'', TATTOOS),
      (''piercing'', PIERCINGS), (''freckles'', FRECKLES)]"

subsection \<open>pick\_extras\<close>

text \<open>
  The loop of \<open>pick_extras\<close> over \<open>OPTIONAL_CATEGORIES\<close>; the resulting \<open>dict\<close> is the
  list of its items, a category that was not sampled holding \<open>None\<close>.
\<close>

fun pick_extras_loop ::
  "(string \<times> string list) list \<Rightarrow> (string \<times> string list) list \<Rightarrow> rng
     \<Rightarrow> py_error + ((string \<times> string option) list \<times> rng)" where
  "pick_extras_loop cats [] g = Inr ([], g)"
| "pick_extras_loop cats ((name, pool) # rest) g =
     (if (name, pool) \<in> set cats then
        bindE (choice pool g) (\<lambda>(v, g1).
        bindE (pick_extras_loop cats rest g1) (\<lambda>(result, g2).
        Inr ((name, Some v) # result, g2)))
      else
        bindE (pick_extras_loop cats rest g) (\<lambda>(result, g2).
        Inr ((name, None) # result, g2)))"

definition pick_extras :: "int \<Rightarrow> rng \<Rightarrow> py_error + ((string \<times> string option) list \<times> rng)" where
  "pick_extras num_extras g =
     bindE (sample OPTIONAL_CATEGORIES num_extras g) (\<lambda>(cats, g1).
     pick_extras_loop cats OPTIONAL_CATEGORIES g1)"

subsection \<open>generate\_agent\<close>

record traits =
  suit_style :: string
  sunglasses :: string
  hair_style :: string
  hair_color :: string
  skin_tone :: string
  background :: string
  expression :: string
  accessory :: "string option"
  tattoo :: "string option"
  piercing :: "string option"
  freckles :: "string option"

record agent =
  token_id :: int
  traits :: traits
  rarity :: string
  num_extras :: int
  prompt :: string

text \<open>\<open>d.get(key)\<close> on the items of a \<open>dict\<close> whose values may be \<open>None\<close>.\<close>

definition dict_get :: "(string \<times> string option) list \<Rightarrow> string \<Rightarrow> string option" where
  "dict_get d k = (case map_of d k of None \<Rightarrow> None | Some v \<Rightarrow> v)"

definition rarity_label :: "int \<Rightarrow> py_error + string" where
  "rarity_label n =
     (case map_of RARITY_LABELS n of None \<Rightarrow> Inl KeyError | Some l \<Rightarrow> Inr l)"

text \<open>
  \<open>if traits.get(name): parts.append(traits[name])\<close>: the fragment of an optional trait,
  nothing when the value is \<open>None\<close> or the empty string.
\<close>

definition optional_part :: "string option \<Rightarrow> string list" where
  "optional_part v = (case v of None \<Rightarrow> [] | Some s \<Rightarrow> if s = [] then [] else [s])"

definition prompt_parts :: "traits \<Rightarrow> string list" where
  "prompt_parts t =
     [''Chibi agent, oversized head, large glossy black eyes with white highlights'',
      hair_color t @ '' '' @ hair_style t,
      skin_tone t]
     @ optional_part (freckles t)
     @ [expression t, suit_style t, sunglasses t]
     @ optional_part (accessory t)
     @ optional_part (tattoo t)
     @ optional_part (piercing t)
     @ [''chest-up portrait'',
        background t @ '' background'',
        ''kawaii digital art, NFT collectible card style'']"

fun join :: "string \<Rightarrow> string list \<Rightarrow> string" where
  "join sep [] = []"
| "join sep [x] = x"
| "join sep (x # y # ys) = x @ sep @ join sep (y # ys)"

definition render_prompt :: "traits \<Rightarrow> string" where
  "render_prompt t = join '', '' (prompt_parts t)"

definition generate_agent :: "int \<Rightarrow> int \<Rightarrow> rng \<Rightarrow> py_error + (agent \<times> rng)" where
  "generate_agent tid n g =
     bindE (choice SUIT_STYLES g) (\<lambda>(suit, g1).
     bindE (choice SUNGLASSES g1) (\<lambda>(sun, g2).
     bindE (choice HAIR_STYLES g2) (\<lambda>(hs, g3).
     bindE (choice HAIR_COLORS g3) (\<lambda>(hc, g4).
     bindE (choice SKIN_TONES g4) (\<lambda>(skin, g5).
     bindE (choice BACKGROUNDS g5) (\<lambda>(bg, g6).
     bindE (choice EXPRESSIONS g6) (\<lambda>(ex, g7).
     bindE (pick_extras n g7) (\<lambda>(extras, g8).
     bindE (rarity_label n) (\<lambda>label.
       let t = \<lparr> suit_style = suit, sunglasses = sun, hair_style = hs, hair_color = hc,
                 skin_tone = skin, background = bg, expression = ex,
                 accessory = dict_get extras ''accessory'',
                 tattoo = dict_get extras ''tattoo'',
                 piercing = dict_get extras ''piercing'',
                 freckles = dict_get extras ''freckles'' \<rparr>
       in Inr (\<lparr> token_id = tid, traits = t, rarity = label, num_extras = n,
                  prompt = render_prompt t \<rparr>, g8))))))))))"

subsection \<open>main: the rarity schedule and the uniqueness loop\<close>

text \<open>
  \<open>main\<close> reads the module constants \<open>RARITY_WEIGHTS\<close> and the collection size 2000 of
  its assertion; \<open>main_with\<close> takes both as arguments, and \<open>main\<close> is its instance.
\<close>

fun build_schedule :: "(int \<times> int) list \<Rightarrow> int list" where
  "build_schedule [] = []"
| "build_schedule ((n, cnt) # rest) = replicate (nat cnt) n @ build_schedule rest"

definition rarity_schedule :: "(int \<times> int) list \<Rightarrow> nat \<Rightarrow> rng \<Rightarrow> py_error + (int list \<times> rng)" where
  "rarity_schedule weights size_n g =
     (let schedule = build_schedule weights in
      if length schedule \<noteq> size_n then Inl AssertionError
      else Inr (shuffle schedule g))"

type_synonym combo_key =
  "string \<times> string \<times> string \<times> string \<times> string \<times> string \<times> string
   \<times> string option \<times> string option \<times> string option \<times> string option"

definition combo_key :: "traits \<Rightarrow> combo_key" where
  "combo_key t =
     (suit_style t, sunglasses t, hair_style t, hair_color t, skin_tone t, background t,
      expression t, accessory t, tattoo t, piercing t, freckles t)"

record gen_state =
  seen_combos :: "combo_key set"
  agents :: "agent list"
  attempts :: nat
  rand :: rng

text \<open>
  A run ends in an exception, in the message that no unique combination was found within
  the attempt budget (\<open>Exhausted\<close>, after which \<open>main\<close> returns without output), or with
  the generated agents.
\<close>

datatype gen_failure = Raised py_error | Exhausted

definition max_attempts :: nat where
  "max_attempts = 50000"

function unique_agent :: "int \<Rightarrow> int \<Rightarrow> gen_state \<Rightarrow> gen_failure + gen_state" where
  "unique_agent tid n st =
     (if attempts st < max_attempts then
        (case generate_agent tid n (rand st) of
           Inl e \<Rightarrow> Inl (Raised e)
         | Inr (a, g1) \<Rightarrow>
             if combo_key (traits a) \<notin> seen_combos st then
               Inr (st\<lparr> seen_combos := insert (combo_key (traits a)) (seen_combos st),
                        agents := agents st @ [a],
                        attempts := attempts st + 1,
                        rand := g1 \<rparr>)
             else unique_agent tid n (st\<lparr> attempts := attempts st + 1, rand := g1 \<rparr>))
      else Inl Exhausted)"
  by pat_completeness auto
termination
  by (relation "measure (\<lambda>(tid, n, st). max_attempts - attempts st)") auto

declare unique_agent.simps [simp del]

fun generate_all :: "int \<Rightarrow> int list \<Rightarrow> gen_state \<Rightarrow> gen_failure + gen_state" where
  "generate_all i [] st = Inr st"
| "generate_all i (n # rest) st =
     (case unique_agent (i + 1) n st of
        Inl f \<Rightarrow> Inl f
      | Inr st1 \<Rightarrow> generate_all (i + 1) rest st1)"

definition main_with :: "(int \<times> int) list \<Rightarrow> nat \<Rightarrow> rng \<Rightarrow> gen_failure + gen_state" where
  "main_with weights size_n g =
     (case rarity_schedule weights size_n g of
        Inl e \<Rightarrow> Inl (Raised e)
      | Inr (schedule, g1) \<Rightarrow>
          generate_all 0 schedule
            \<lparr> seen_combos = {}, agents = [], attempts = 0, rand = g1 \<rparr>)"

definition main :: "rng \<Rightarrow> gen_failure + gen_state" where
  "main g = main_with RARITY_WEIGHTS 2000 g"

text \<open>The number of optional categories an item carries, on either representation.\<close>

definition present_count :: "(string \<times> string option) list \<Rightarrow> nat" where
  "present_count d = length (filter (\<lambda>(name, v). v \<noteq> None) d)"

definition absent_count :: "(string \<times> string option) list \<Rightarrow> nat" where
  "absent_count d = length (filter (\<lambda>(name, v). v = None) d)"

definition extras_present :: "traits \<Rightarrow> nat" where
  "extras_present t =
     length (filter (\<lambda>v. v \<noteq> None) [accessory t, tattoo t, piercing t, freckles t])"

section \<open>generate\_images.py\<close>

subsection \<open>JSON values as Python sees them\<close>

text \<open>
  What \<open>resp.json()\<close> returns. A number only matters through its truth value, so floats
  are not told apart from integers.
\<close>

datatype json =
    JNull | JBool bool | JNum int | JStr string | JArr "json list"
  | JObj "(string \<times> json) list"

fun truthy :: "json \<Rightarrow> bool" where
  "truthy JNull = False"
| "truthy (JBool b) = b"
| "truthy (JNum n) = (n \<noteq> 0)"
| "truthy (JStr s) = (s \<noteq> [])"
| "truthy (JArr xs) = (xs \<noteq> [])"
| "truthy (JObj kvs) = (kvs \<noteq> [])"

text \<open>\<open>obj.get(key, default)\<close>: only a \<open>dict\<close> has the method.\<close>

fun json_get :: "json \<Rightarrow> string \<Rightarrow> json \<Rightarrow> py_error + json" where
  "json_get (JObj kvs) k d = Inr (case map_of kvs k of None \<Rightarrow> d | Some v \<Rightarrow> v)"
| "json_get _ k d = Inl AttributeError"

text \<open>
  \<open>images[0]\<close> on a value that passed \<open>if not images\<close>: a list gives its first entry, a
  string its first character, a \<open>dict\<close> has no key \<open>0\<close> (JSON keys are strings), and a
  number or \<open>True\<close> cannot be indexed.
\<close>

fun first_item :: "json \<Rightarrow> py_error + json" where
  "first_item (JArr (x # xs)) = Inr x"
| "first_item (JArr []) = Inl IndexError"
| "first_item (JStr (c # cs)) = Inr (JStr [c])"
| "first_item (JStr []) = Inl IndexError"
| "first_item (JObj kvs) = Inl KeyError"
| "first_item _ = Inl TypeError"

fun is_dict :: "json \<Rightarrow> bool" where
  "is_dict (JObj kvs) = True"
| "is_dict _ = False"

subsection \<open>The remote service and the file system\<close>

text \<open>
  The world a run acts on: the files below the working directory, the replies the
  network will give to the requests still to come (one per call of \<open>requests\<close>), and the
  trace of what the run has done so far. A reply is a failed connection or a response
  with its status code, its body as JSON when it parses, and its raw content.
\<close>

datatype reply = ConnectionFailed | Response nat "json option" string

datatype event =
    Submit string | Poll string | Fetch string | Download string
  | SleepPoll | SleepBackoff nat | SleepDelay

record world =
  files :: "string \<rightharpoonup> string"
  replies :: "reply stream"
  events :: "event list"

definition request :: "event \<Rightarrow> world \<Rightarrow> reply \<times> world" where
  "request c w = (shd (replies w), w\<lparr> replies := stl (replies w), events := events w @ [c] \<rparr>)"

definition sleep :: "event \<Rightarrow> world \<Rightarrow> world" where
  "sleep e w = w\<lparr> events := events w @ [e] \<rparr>"

text \<open>\<open>resp.raise_for_status()\<close>, after a request that may itself raise.\<close>

fun raise_for_status :: "reply \<Rightarrow> py_error + (json option \<times> string)" where
  "raise_for_status ConnectionFailed = Inl RequestException"
| "raise_for_status (Response code js content) =
     (if 400 \<le> code \<and> code < 600 then Inl HTTPError else Inr (js, content))"

fun resp_json :: "json option \<Rightarrow> py_error + json" where
  "resp_json None = Inl JSONDecodeError"
| "resp_json (Some j) = Inr j"

text \<open>
  The URL handed to \<open>requests.get\<close> is whatever the service sent. \<open>requests\<close> turns a
  value that is not a string into its \<open>str()\<close>, which has no scheme, and raises before
  anything is sent.
\<close>

fun url_arg :: "json \<Rightarrow> py_error + string" where
  "url_arg (JStr u) = Inr u"
| "url_arg _ = Inl RequestException"

definition MAX_POLL_ATTEMPTS :: nat where
  "MAX_POLL_ATTEMPTS = 150"

definition MAX_RETRIES :: nat where
  "MAX_RETRIES = 3"

definition IMAGES_DIR :: string where
  "IMAGES_DIR = ''output/images''"

text \<open>Effectful steps return their result or exception together with the new world.\<close>

definition bindS ::
  "(world \<Rightarrow> (py_error + 'a) \<times> world) \<Rightarrow> ('a \<Rightarrow> world \<Rightarrow> (py_error + 'b) \<times> world)
     \<Rightarrow> world \<Rightarrow> (py_error + 'b) \<times> world" where
  "bindS m f w = (case m w of (Inl e, w1) \<Rightarrow> (Inl e, w1) | (Inr v, w1) \<Rightarrow> f v w1)"

definition liftE :: "py_error + 'a \<Rightarrow> world \<Rightarrow> (py_error + 'a) \<times> world" where
  "liftE r w = (r, w)"

subsection \<open>submit, poll, fetch, download\<close>

definition submit_request :: "string \<Rightarrow> world \<Rightarrow> (py_error + json) \<times> world" where
  "submit_request p w =
     (let (r, w1) = request (Submit p) w
      in (bindE (raise_for_status r) (\<lambda>(js, content). resp_json js), w1))"

text \<open>One poll: the status the loop looks at, or the exception it lets through.\<close>

definition poll_status :: "reply \<Rightarrow> py_error + json" where
  "poll_status r =
     bindE (raise_for_status r) (\<lambda>(js, content).
     bindE (resp_json js) (\<lambda>data.
     json_get data ''status'' (JStr ''UNKNOWN'')))"

fun poll_loop :: "nat \<Rightarrow> json \<Rightarrow> world \<Rightarrow> (py_error + string) \<times> world" where
  "poll_loop 0 status_url w = (Inl TimeoutError, w)"
| "poll_loop (Suc n) status_url w =
     (case url_arg status_url of
        Inl e \<Rightarrow> (Inl e, w)
      | Inr u \<Rightarrow>
          (let (r, w1) = request (Poll u) w in
           case poll_status r of
             Inl e \<Rightarrow> (Inl e, w1)
           | Inr status \<Rightarrow>
               if status = JStr ''COMPLETED'' then (Inr ''COMPLETED'', w1)
               else if status = JStr ''FAILED'' \<or> status = JStr ''CANCELLED''
               then (Inl (RuntimeError ''Request FAILED or CANCELLED''), w1)
               else poll_loop n status_url (sleep SleepPoll w1)))"

definition poll_until_done :: "json \<Rightarrow> world \<Rightarrow> (py_error + string) \<times> world" where
  "poll_until_done status_url w = poll_loop MAX_POLL_ATTEMPTS status_url w"

definition fetch_result :: "json \<Rightarrow> world \<Rightarrow> (py_error + json) \<times> world" where
  "fetch_result response_url w =
     (case url_arg response_url of
        Inl e \<Rightarrow> (Inl e, w)
      | Inr u \<Rightarrow>
          (let (r, w1) = request (Fetch u) w
           in (bindE (raise_for_status r) (\<lambda>(js, content). resp_json js), w1)))"

text \<open>
  \<open>open(dest_path, "wb")\<close> creates the file or truncates it to length zero, and
  \<open>f.write\<close> appends to it. The images directory exists (\<open>main\<close> creates it), so opening
  does not fail.
\<close>

definition open_wb :: "string \<Rightarrow> world \<Rightarrow> world" where
  "open_wb path w = w\<lparr> files := (files w)(path \<mapsto> []) \<rparr>"

definition write_bytes :: "string \<Rightarrow> string \<Rightarrow> world \<Rightarrow> world" where
  "write_bytes path bs w =
     w\<lparr> files := (files w)(path \<mapsto> (case files w path of None \<Rightarrow> bs | Some old \<Rightarrow> old @ bs)) \<rparr>"

definition download_image :: "json \<Rightarrow> string \<Rightarrow> world \<Rightarrow> (py_error + unit) \<times> world" where
  "download_image image_url dest_path w =
     (case url_arg image_url of
        Inl e \<Rightarrow> (Inl e, w)
      | Inr u \<Rightarrow>
          (let (r, w1) = request (Download u) w in
           case raise_for_status r of
             Inl e \<Rightarrow> (Inl e, w1)
           | Inr (js, content) \<Rightarrow> (Inr (), write_bytes dest_path content (open_wb dest_path w1))))"


subsection \<open>generate\_single\<close>

text \<open>\<open>f"{token_id:04d}"\<close>: decimal, padded with zeros to four characters, the sign first.\<close>

function digits :: "nat \<Rightarrow> string" where
  "digits n =
     (if n < 10 then [''0123456789'' ! n]
      else digits (n div 10) @ [''0123456789'' ! (n mod 10)])"
  by pat_completeness auto
termination
  by (relation "measure (\<lambda>n. n)") auto

declare digits.simps [simp del]

definition zero_pad :: "nat \<Rightarrow> string \<Rightarrow> string" where
  "zero_pad width s = replicate (width - length s) (CHR ''0'') @ s"

definition format_04d :: "int \<Rightarrow> string" where
  "format_04d i =
     (if i < 0 then ''-'' @ zero_pad 3 (digits (nat (- i))) else zero_pad 4 (digits (nat i)))"

definition dest_path_of :: "int \<Rightarrow> string" where
  "dest_path_of tid = IMAGES_DIR @ ''/'' @ format_04d tid @ ''.png''"

text \<open>\<open>os.path.exists(dest) and os.path.getsize(dest) > 0\<close>\<close>

definition exists_nonempty :: "world \<Rightarrow> string \<Rightarrow> bool" where
  "exists_nonempty w path = (case files w path of None \<Rightarrow> False | Some c \<Rightarrow> 0 < length c)"

text \<open>Step 1 of an attempt, after the submission: the two endpoints of the queue response.\<close>

definition queue_urls :: "json \<Rightarrow> py_error + (json \<times> json)" where
  "queue_urls queue_resp =
     bindE (json_get queue_resp ''request_id'' (JStr ''?'')) (\<lambda>request_id.
     bindE (json_get queue_resp ''status_url'' JNull) (\<lambda>status_url.
     bindE (json_get queue_resp ''response_url'' JNull) (\<lambda>response_url.
     if \<not> truthy status_url \<or> \<not> truthy response_url
     then Inl (RuntimeError ''Missing status/response URLs in queue response'')
     else Inr (status_url, response_url))))"

text \<open>Step 4 of an attempt, before the download: the image URL of the fetched result.\<close>

definition extract_image_url :: "json \<Rightarrow> py_error + json" where
  "extract_image_url result =
     bindE (json_get result ''images'' (JArr [])) (\<lambda>images0.
     bindE (if \<not> truthy images0 then
              bindE (json_get result ''data'' (JObj [])) (\<lambda>data_default.
              bindE (json_get result ''output'' data_default) (\<lambda>output.
              if is_dict output then json_get output ''images'' (JArr []) else Inr images0))
            else Inr images0) (\<lambda>images.
     if \<not> truthy images then Inl (RuntimeError ''No images in response'')
     else
       bindE (first_item images) (\<lambda>item.
       bindE (if is_dict item then json_get item ''url'' JNull else Inr item) (\<lambda>image_url.
       if \<not> truthy image_url then Inl (RuntimeError ''No URL in image data'')
       else Inr image_url))))"

text \<open>The body of the \<open>try\<close> block: one attempt.\<close>

definition attempt :: "string \<Rightarrow> string \<Rightarrow> world \<Rightarrow> (py_error + unit) \<times> world" where
  "attempt p dest_path =
     bindS (submit_request p) (\<lambda>queue_resp.
     bindS (liftE (queue_urls queue_resp)) (\<lambda>(status_url, response_url).
     bindS (poll_until_done status_url) (\<lambda>done.
     bindS (fetch_result response_url) (\<lambda>result.
     bindS (liftE (extract_image_url result)) (\<lambda>image_url.
     download_image image_url dest_path)))))"

text \<open>
  \<open>for retry in range(MAX_RETRIES)\<close> with its \<open>except Exception\<close>: every exception of
  an attempt is caught here, and the loop goes on after the backoff sleep.
\<close>

fun retry_loop :: "nat list \<Rightarrow> string \<Rightarrow> string \<Rightarrow> world \<Rightarrow> bool \<times> world" where
  "retry_loop [] p dest_path w = (False, w)"
| "retry_loop (retry # rest) p dest_path w =
     (case attempt p dest_path w of
        (Inr u, w1) \<Rightarrow> (True, w1)
      | (Inl e, w1) \<Rightarrow>
          retry_loop rest p dest_path
            (if retry < MAX_RETRIES - 1 then sleep (SleepBackoff (2 ^ (retry + 1))) w1 else w1))"

definition generate_single :: "int \<Rightarrow> string \<Rightarrow> bool \<Rightarrow> world \<Rightarrow> bool \<times> world" where
  "generate_single tid p force w =
     (let dest_path = dest_path_of tid in
      if \<not> force \<and> exists_nonempty w dest_path then (True, w)
      else retry_loop [0..<MAX_RETRIES] p dest_path w)"

subsection \<open>main: the orchestrator\<close>

text \<open>
  \<open>main\<close> from the point where the token ids and the redo flag are known; the collection
  is the list read from \<open>full_collection.json\<close>.
\<close>

record report =
  successes :: nat
  failures :: nat
  failed_ids :: "int list"
  skipped :: nat

definition agents_by_id :: "agent list \<Rightarrow> (int \<rightharpoonup> agent)" where
  "agents_by_id collection = fold (\<lambda>a m. m(token_id a \<mapsto> a)) collection Map.empty"

definition select_ids :: "int list option \<Rightarrow> int \<Rightarrow> int \<Rightarrow> int list \<times> bool" where
  "select_ids redo start_id end_id =
     (case redo of Some ids \<Rightarrow> (ids, True) | None \<Rightarrow> ([start_id..end_id], False))"

fun classify :: "int list \<Rightarrow> (int \<rightharpoonup> agent) \<Rightarrow> bool \<Rightarrow> world \<Rightarrow> nat \<times> int list" where
  "classify [] by_id force w = (0, [])"
| "classify (tid # rest) by_id force w =
     (let (already_done, to_generate) = classify rest by_id force w in
      if by_id tid = None then (already_done, to_generate)
      else if \<not> force \<and> exists_nonempty w (dest_path_of tid) then (already_done + 1, to_generate)
      else (already_done, tid # to_generate))"

fun run_items ::
  "int list \<Rightarrow> (int \<rightharpoonup> agent) \<Rightarrow> bool \<Rightarrow> report \<Rightarrow> world \<Rightarrow> py_error + (report \<times> world)" where
  "run_items [] by_id force rep w = Inr (rep, w)"
| "run_items (tid # rest) by_id force rep w =
     (case by_id tid of
        None \<Rightarrow> Inl KeyError
      | Some a \<Rightarrow>
          (let (ok, w1) = generate_single tid (prompt a) force w;
               rep1 = (if ok then rep\<lparr> successes := successes rep + 1 \<rparr>
                       else rep\<lparr> failures := failures rep + 1,
                                failed_ids := failed_ids rep @ [tid] \<rparr>);
               w2 = (if rest \<noteq> [] then sleep SleepDelay w1 else w1)
           in run_items rest by_id force rep1 w2))"

definition process :: "int list \<Rightarrow> bool \<Rightarrow> agent list \<Rightarrow> world \<Rightarrow> py_error + (report \<times> world)" where
  "process token_ids force collection w =
     (let by_id = agents_by_id collection;
          (already_done, to_generate) = classify token_ids by_id force w;
          rep0 = \<lparr> successes = 0, failures = 0, failed_ids = [], skipped = already_done \<rparr>
      in if to_generate = [] then Inr (rep0, w)
         else run_items to_generate by_id force rep0 w)"

subsection \<open>Counting requests in a trace\<close>

definition submits :: "event list \<Rightarrow> nat" where
  "submits es = length (filter (\<lambda>e. case e of Submit p \<Rightarrow> True | _ \<Rightarrow> False) es)"

definition polls :: "event list \<Rightarrow> nat" where
  "polls es = length (filter (\<lambda>e. case e of Poll u \<Rightarrow> True | _ \<Rightarrow> False) es)"

subsection \<open>Trait assignments drawn from the pools\<close>

text \<open>
  A trait assignment as \<open>generate_agent\<close> builds it: every mandatory value comes from
  its pool, and an optional value is \<open>None\<close> or comes from the pool of its category. An
  optional trait is present for the renderer when it is neither \<open>None\<close> nor empty.
\<close>

definition optional_vocabulary :: "string list" where
  "optional_vocabulary = ACCESSORIES @ TATTOOS @ PIERCINGS @ FRECKLES"

definition mandatory_from_pools :: "traits \<Rightarrow> bool" where
  "mandatory_from_pools t \<longleftrightarrow>
     suit_style t \<in> set SUIT_STYLES \<and> sunglasses t \<in> set SUNGLASSES
     \<and> hair_style t \<in> set HAIR_STYLES \<and> hair_color t \<in> set HAIR_COLORS
     \<and> skin_tone t \<in> set SKIN_TONES \<and> background t \<in> set BACKGROUNDS
     \<and> expression t \<in> set EXPRESSIONS"

definition from_pool :: "string list \<Rightarrow> string option \<Rightarrow> bool" where
  "from_pool pool v = (case v of None \<Rightarrow> True | Some s \<Rightarrow> s \<in> set pool)"

definition optional_from_pools :: "traits \<Rightarrow> bool" where
  "optional_from_pools t \<longleftrightarrow>
     from_pool ACCESSORIES (accessory t) \<and> from_pool TATTOOS (tattoo t)
     \<and> from_pool PIERCINGS (piercing t) \<and> from_pool FRECKLES (freckles t)"

definition no_extras :: "traits \<Rightarrow> bool" where
  "no_extras t \<longleftrightarrow>
     accessory t = None \<and> tattoo t = None \<and> piercing t = None \<and> freckles t = None"

definition is_present :: "string option \<Rightarrow> bool" where
  "is_present v \<longleftrightarrow> v \<noteq> None \<and> v \<noteq> Some []"

text \<open>
  Words that occur in every value of the optional pools and nowhere in the mandatory pools
  or in the fixed text of the prompt. None of them holds a space or a comma.
\<close>

definition markers :: "string list" where
  "markers = [''tattoo'', ''freckles'', ''earpiece'', ''lapel'', ''nose'', ''septum'', ''piercing'',
     ''hoop'', ''cuff'', ''lanyard'', ''folder'', ''cigarette'', ''dog'', ''wristwatch'', ''lip'']"

definition marker_free :: "string \<Rightarrow> bool" where
  "marker_free s = list_all (\<lambda>m. \<not> sublist m s) markers"

definition has_marker :: "string \<Rightarrow> bool" where
  "has_marker s = list_ex (\<lambda>m. sublist m s) markers"

text \<open>An assignment without optional traits, and one whose only optional trait is an accessory.\<close>

definition plain_traits :: traits where
  "plain_traits =
     \<lparr> suit_style = ''black suit black tie'', sunglasses = ''oval black sunglasses'',
       hair_style = ''mohawk'', hair_color = ''pink'', skin_tone = ''tan skin'',
       background = ''foggy black helicopter tarmac'', expression = ''tiny flat mouth'',
       accessory = None, tattoo = None, piercing = None, freckles = None \<rparr>"

definition cuffed_traits :: traits where
  "cuffed_traits = plain_traits\<lparr> accessory := Some ''chain connecting ear cuff to collar'' \<rparr>"

subsection \<open>The invariant of the uniqueness loop\<close>

definition keys_of :: "gen_state \<Rightarrow> combo_key list" where
  "keys_of st = map (\<lambda>a. combo_key (traits a)) (agents st)"

definition unique_inv :: "gen_state \<Rightarrow> bool" where
  "unique_inv st \<longleftrightarrow> distinct (keys_of st) \<and> seen_combos st = set (keys_of st)"

subsection \<open>A concrete run of the generator\<close>

text \<open>
  The draws of a run over the table \<open>{0: 2, 1: 1}\<close>: the shuffle leaves the schedule as
  built, the second item first repeats the combination of the first and is drawn again, and
  the third item carries freckles.
\<close>

definition example_tape :: rng where
  "example_tape =
     [2, 1,  0,0,0,0,0,0,0,  0,0,0,0,0,0,0,  1,0,0,0,0,0,0,  0,0,0,0,0,0,0, 3, 2] @- sconst 0"

subsection \<open>What a poll observes\<close>

text \<open>
  A poll is in progress when it returns a status other than the three terminal ones; it
  reports a status when that is the value of the \<open>status\<close> field.
\<close>

definition in_progress :: "reply \<Rightarrow> bool" where
  "in_progress r =
     (case poll_status r of
        Inl e \<Rightarrow> False
      | Inr status \<Rightarrow> status \<noteq> JStr ''COMPLETED'' \<and> status \<noteq> JStr ''FAILED''
                      \<and> status \<noteq> JStr ''CANCELLED'')"

definition reports :: "string \<Rightarrow> reply \<Rightarrow> bool" where
  "reports s r = (poll_status r = Inr (JStr s))"

subsection \<open>The documented result shapes\<close>










subsection \<open>Concrete replies, payloads and worlds\<close>

definition pending_reply :: reply where
  "pending_reply = Response 200 (Some (JObj [(''status'', JStr ''IN_PROGRESS'')])) []"

definition completed_reply :: reply where
  "completed_reply = Response 200 (Some (JObj [(''status'', JStr ''COMPLETED'')])) []"

definition failed_reply :: reply where
  "failed_reply =
     Response 200 (Some (JObj [(''status'', JStr ''FAILED''), (''error'', JStr ''out of capacity'')])) []"









definition world_of :: "(string \<rightharpoonup> string) \<Rightarrow> reply stream \<Rightarrow> world" where
  "world_of fs rs = \<lparr> files = fs, replies = rs, events = [] \<rparr>"

definition example_agent :: "int \<Rightarrow> agent" where
  "example_agent tid =
     \<lparr> token_id = tid,
       traits = \<lparr> suit_style = ''black suit black tie'', sunglasses = ''oval black sunglasses'',
                  hair_style = ''mohawk'', hair_color = ''pink'', skin_tone = ''tan skin'',
                  background = ''foggy black helicopter tarmac'', expression = ''tiny flat mouth'',
                  accessory = None, tattoo = None, piercing = None, freckles = None \<rparr>,
       rarity = ''Common'', num_extras = 0, prompt = ''Chibi agent'' \<rparr>"


definition stored_world :: world where
  "stored_world = world_of (Map.empty(''output/images/0007.png'' \<mapsto> ''PNG-bytes'')) (sconst ConnectionFailed)"





section \<open>Properties of the random primitives\<close>

lemma shuffle_loop_mset: "i < length x \<Longrightarrow> mset (fst (shuffle_loop i x g)) = mset x"
proof (induction i arbitrary: x g)
  case 0 then show ?case by simp
next
  case (Suc i)
  have j: "shd g mod (Suc i + 1) < length x" using Suc.prems
    by (metis Suc_eq_plus1 less_Suc_eq_le mod_less_divisor zero_less_Suc le_less_trans)
  show ?case using Suc.prems j
    by (simp add: randbelow_def Suc.IH mset_swap)
qed

lemma sample_step_mset:
  assumes "j < m" "m \<le> length pool"
  shows "add_mset (pool ! j) (mset (take (m - 1) (pool[j := pool ! (m - 1)]))) = mset (take m pool)"
proof -
  obtain m' where m: "m = Suc m'" using assms(1) by (cases m) auto
  have lt: "m' < length pool" using assms(2) m by simp
  have tk: "take m pool = take m' pool @ [pool ! m']"
    using lt m by (simp add: take_Suc_conv_app_nth)
  show ?thesis
  proof (cases "j = m'")
    case True
    then show ?thesis using tk m by simp
  next
    case False
    then have jlt: "j < m'" using assms(1) m by simp
    have mem: "pool ! j \<in># mset (take m' pool)"
      using jlt lt by (metis in_set_conv_nth length_take min.absorb2 less_imp_le nth_take set_mset_mset)
    have "mset (take m' (pool[j := pool ! m'])) =
          add_mset (pool ! m') (mset (take m' pool) - {#pool ! j#})"
      using jlt lt by (simp add: take_update_swap mset_update)
    then show ?thesis using tk m mem by simp
  qed
qed

lemma sample_loop_mset:
  "k \<le> m \<Longrightarrow> m \<le> length pool \<Longrightarrow> mset (fst (sample_loop pool m k g)) \<subseteq># mset (take m pool)"
proof (induction k arbitrary: pool m g)
  case 0 then show ?case by simp
next
  case (Suc k)
  let ?j = "shd g mod m"
  let ?pool' = "pool[?j := pool ! (m - 1)]"
  have j: "?j < m" using Suc.prems by simp
  have IH: "mset (fst (sample_loop ?pool' (m - 1) k (stl g))) \<subseteq># mset (take (m - 1) ?pool')"
    using Suc.prems by (intro Suc.IH) auto
  have "mset (fst (sample_loop pool m (Suc k) g)) =
        add_mset (pool ! ?j) (mset (fst (sample_loop ?pool' (m - 1) k (stl g))))"
    by (simp add: randbelow_def split: prod.splits)
  also have "\<dots> \<subseteq># add_mset (pool ! ?j) (mset (take (m - 1) ?pool'))"
    using IH by simp
  also have "\<dots> = mset (take m pool)"
    using sample_step_mset[OF j Suc.prems(2)] .
  finally show ?case .
qed

lemma sample_loop_length: "length (fst (sample_loop pool m k g)) = k"
proof (induction k arbitrary: pool m g)
  case 0 then show ?case by simp
next
  case (Suc k)
  show ?case using Suc.IH[of "pool[shd g mod m := pool ! (m - 1)]" "m - 1" "stl g"]
    by (simp add: randbelow_def case_prod_beta)
qed



lemma sub_distinct:
  assumes "mset xs \<subseteq># mset ys" "distinct ys" shows "distinct xs"
proof -
  have le: "count (mset xs) a \<le> 1" for a
  proof -
    have "count (mset xs) a \<le> count (mset ys) a" by (rule mset_subset_eq_count[OF assms(1)])
    also have "\<dots> \<le> 1" using assms(2) by (simp add: distinct_count_atmost_1)
    finally show ?thesis .
  qed
  show ?thesis unfolding distinct_count_atmost_1
  proof (intro allI)
    fix a
    show "count (mset xs) a = (if a \<in> set xs then 1 else 0)"
    proof (cases "a \<in> set xs")
      case True
      then have "0 < count (mset xs) a" by (simp only: count_greater_zero_iff set_mset_mset)
      with le[of a] have "count (mset xs) a = 1" by linarith
      with True show ?thesis by (simp only: if_True)
    next
      case False
      then show ?thesis by simp
    qed
  qed
qed

lemma sample_loop_distinct:
  assumes "k \<le> length pool" "distinct pool"
  shows "distinct (fst (sample_loop pool (length pool) k g))"
    and "set (fst (sample_loop pool (length pool) k g)) \<subseteq> set pool"
proof -
  have sub: "mset (fst (sample_loop pool (length pool) k g)) \<subseteq># mset pool"
    using sample_loop_mset[of k "length pool" pool g] assms(1) by simp
  show "distinct (fst (sample_loop pool (length pool) k g))"
    using sub assms(2) by (rule sub_distinct)
  show "set (fst (sample_loop pool (length pool) k g)) \<subseteq> set pool"
    using sub by (metis set_mset_mono set_mset_mset)
qed

lemma shuffle_mset: "mset (fst (shuffle x g)) = mset x"
proof (cases x)
  case Nil
  then show ?thesis by (simp add: shuffle_def)
next
  case (Cons a xs)
  then show ?thesis unfolding shuffle_def by (intro shuffle_loop_mset) simp
qed

lemma shuffle_length: "length (fst (shuffle x g)) = length x"
  using shuffle_mset[of x g] by (metis mset_eq_length)

section \<open>Properties of the combination generator\<close>

subsection \<open>pick\_extras and generate\_agent\<close>

lemma choice_nonempty:
  "seq \<noteq> [] \<Longrightarrow> choice seq g = Inr (seq ! (shd g mod length seq), stl g)"
  by (simp add: choice_def randbelow_def)

lemma pick_extras_loop_total:
  assumes "\<forall>(name, pool) \<in> set cs. pool \<noteq> []"
  shows "\<exists>r g'. pick_extras_loop cats cs g = Inr (r, g') \<and> map fst r = map fst cs
           \<and> map (\<lambda>(name, v). v \<noteq> None) r = map (\<lambda>c. c \<in> set cats) cs"
  using assms
proof (induction cs arbitrary: g)
  case Nil
  then show ?case by simp
next
  case (Cons c cs)
  obtain name pool where c: "c = (name, pool)" by (cases c)
  have ne: "pool \<noteq> []" using Cons.prems c by simp
  have rest: "\<forall>(name, pool) \<in> set cs. pool \<noteq> []" using Cons.prems by simp
  show ?case
  proof (cases "(name, pool) \<in> set cats")
    case True
    obtain r g' where r: "pick_extras_loop cats cs (stl g) = Inr (r, g')" "map fst r = map fst cs"
      "map (\<lambda>(name, v). v \<noteq> None) r = map (\<lambda>c. c \<in> set cats) cs"
      using Cons.IH[OF rest, of "stl g"] by blast
    show ?thesis using True r c ne by (simp add: bindE_def choice_nonempty)
  next
    case False
    obtain r g' where r: "pick_extras_loop cats cs g = Inr (r, g')" "map fst r = map fst cs"
      "map (\<lambda>(name, v). v \<noteq> None) r = map (\<lambda>c. c \<in> set cats) cs"
      using Cons.IH[OF rest, of g] by blast
    show ?thesis using False r c by (simp add: bindE_def)
  qed
qed

lemma filter_member_length:
  assumes "distinct cs" "distinct cats" "set cats \<subseteq> set cs"
  shows "length (filter (\<lambda>c. c \<in> set cats) cs) = length cats"
proof -
  have "length (filter (\<lambda>c. c \<in> set cats) cs) = card ({c. c \<in> set cats} \<inter> set cs)"
    using assms(1) by (rule distinct_length_filter)
  also have "{c. c \<in> set cats} \<inter> set cs = set cats" using assms(3) by auto
  also have "card (set cats) = length cats" using assms(2) by (rule distinct_card)
  finally show ?thesis .
qed

lemma length_filter_map_bool: "length (filter P xs) = length (filter id (map P xs))"
  by (induction xs) auto

lemma OPTIONAL_CATEGORIES_distinct: "distinct OPTIONAL_CATEGORIES"
  by (simp add: OPTIONAL_CATEGORIES_def)

lemma OPTIONAL_CATEGORIES_length: "length OPTIONAL_CATEGORIES = 4"
  by (simp add: OPTIONAL_CATEGORIES_def)

lemma OPTIONAL_CATEGORIES_nonempty: "\<forall>(name, pool) \<in> set OPTIONAL_CATEGORIES. pool \<noteq> []"
  by (simp add: OPTIONAL_CATEGORIES_def ACCESSORIES_def TATTOOS_def PIERCINGS_def FRECKLES_def)

lemma pick_extras_out_of_range: "k < 0 \<or> 4 < k \<Longrightarrow> pick_extras k g = Inl ValueError"
  by (auto simp: pick_extras_def sample_def bindE_def OPTIONAL_CATEGORIES_length)

lemma pick_extras_in_range:
  assumes "0 \<le> k" "k \<le> 4"
  obtains extras g' where "pick_extras k g = Inr (extras, g')"
    and "map fst extras = [''accessory'', ''tattoo'', ''piercing'', ''freckles'']"
    and "present_count extras = nat k" and "absent_count extras = 4 - nat k"
proof -
  let ?cats = "fst (sample_loop OPTIONAL_CATEGORIES 4 (nat k) g)"
  let ?g1 = "snd (sample_loop OPTIONAL_CATEGORIES 4 (nat k) g)"
  have kn: "nat k \<le> length OPTIONAL_CATEGORIES" using assms by (simp add: OPTIONAL_CATEGORIES_length)
  have d: "distinct ?cats" and sub: "set ?cats \<subseteq> set OPTIONAL_CATEGORIES"
    using sample_loop_distinct[OF kn OPTIONAL_CATEGORIES_distinct, of g]
    by (simp_all add: OPTIONAL_CATEGORIES_length)
  have len: "length ?cats = nat k" by (rule sample_loop_length)
  obtain r g' where r: "pick_extras_loop ?cats OPTIONAL_CATEGORIES ?g1 = Inr (r, g')"
      "map fst r = map fst OPTIONAL_CATEGORIES"
      "map (\<lambda>(name, v). v \<noteq> None) r = map (\<lambda>c. c \<in> set ?cats) OPTIONAL_CATEGORIES"
    using pick_extras_loop_total[OF OPTIONAL_CATEGORIES_nonempty, of ?cats ?g1] by blast
  have run: "pick_extras k g = Inr (r, g')"
    using assms r(1) by (simp add: pick_extras_def sample_def bindE_def OPTIONAL_CATEGORIES_length case_prod_beta)
  have pc: "present_count r = nat k"
  proof -
    have "present_count r = length (filter id (map (\<lambda>(name, v). v \<noteq> None) r))"
      unfolding present_count_def by (rule length_filter_map_bool)
    also have "\<dots> = length (filter (\<lambda>c. c \<in> set ?cats) OPTIONAL_CATEGORIES)"
      unfolding r(3) by (rule length_filter_map_bool[symmetric])
    also have "\<dots> = length ?cats"
      using OPTIONAL_CATEGORIES_distinct d sub by (rule filter_member_length)
    finally show ?thesis using len by simp
  qed
  have lr: "length r = 4" using r(2) OPTIONAL_CATEGORIES_length by (metis length_map)
  have "present_count r + absent_count r = length r"
    by (induction r) (auto simp: present_count_def absent_count_def)
  then have ac: "absent_count r = 4 - nat k" using pc lr by simp
  have names: "map fst r = [''accessory'', ''tattoo'', ''piercing'', ''freckles'']"
    using r(2) by (simp add: OPTIONAL_CATEGORIES_def)
  show ?thesis by (rule that[OF run names pc ac])
qed

lemma mandatory_nonempty:
  "SUIT_STYLES \<noteq> []" "SUNGLASSES \<noteq> []" "HAIR_STYLES \<noteq> []" "HAIR_COLORS \<noteq> []"
  "SKIN_TONES \<noteq> []" "BACKGROUNDS \<noteq> []" "EXPRESSIONS \<noteq> []"
  by (simp_all add: SUIT_STYLES_def SUNGLASSES_def HAIR_STYLES_def HAIR_COLORS_def
      SKIN_TONES_def BACKGROUNDS_def EXPRESSIONS_def)

lemma generate_agent_unfold:
  "generate_agent tid k g =
     bindE (pick_extras k (stl (stl (stl (stl (stl (stl (stl g)))))))) (\<lambda>(extras, g8).
     bindE (rarity_label k) (\<lambda>label.
       Inr (\<lparr> token_id = tid,
               traits = \<lparr> suit_style = SUIT_STYLES ! (shd g mod length SUIT_STYLES),
                 sunglasses = SUNGLASSES ! (shd (stl g) mod length SUNGLASSES),
                 hair_style = HAIR_STYLES ! (shd (stl (stl g)) mod length HAIR_STYLES),
                 hair_color = HAIR_COLORS ! (shd (stl (stl (stl g))) mod length HAIR_COLORS),
                 skin_tone = SKIN_TONES ! (shd (stl (stl (stl (stl g)))) mod length SKIN_TONES),
                 background = BACKGROUNDS ! (shd (stl (stl (stl (stl (stl g))))) mod length BACKGROUNDS),
                 expression = EXPRESSIONS ! (shd (stl (stl (stl (stl (stl (stl g)))))) mod length EXPRESSIONS),
                 accessory = dict_get extras ''accessory'',
                 tattoo = dict_get extras ''tattoo'',
                 piercing = dict_get extras ''piercing'',
                 freckles = dict_get extras ''freckles'' \<rparr>,
               rarity = label, num_extras = k,
               prompt = render_prompt \<lparr> suit_style = SUIT_STYLES ! (shd g mod length SUIT_STYLES),
                 sunglasses = SUNGLASSES ! (shd (stl g) mod length SUNGLASSES),
                 hair_style = HAIR_STYLES ! (shd (stl (stl g)) mod length HAIR_STYLES),
                 hair_color = HAIR_COLORS ! (shd (stl (stl (stl g))) mod length HAIR_COLORS),
                 skin_tone = SKIN_TONES ! (shd (stl (stl (stl (stl g)))) mod length SKIN_TONES),
                 background = BACKGROUNDS ! (shd (stl (stl (stl (stl (stl g))))) mod length BACKGROUNDS),
                 expression = EXPRESSIONS ! (shd (stl (stl (stl (stl (stl (stl g)))))) mod length EXPRESSIONS),
                 accessory = dict_get extras ''accessory'',
                 tattoo = dict_get extras ''tattoo'',
                 piercing = dict_get extras ''piercing'',
                 freckles = dict_get extras ''freckles'' \<rparr> \<rparr>, g8)))"
  by (simp add: generate_agent_def choice_nonempty mandatory_nonempty bindE_def Let_def)

lemma generate_agent_out_of_range:
  "k < 0 \<or> 4 < k \<Longrightarrow> generate_agent tid k g = Inl ValueError"
  by (simp add: generate_agent_unfold pick_extras_out_of_range bindE_def)

lemma rarity_label_in_range: "0 \<le> k \<Longrightarrow> k \<le> 4 \<Longrightarrow> \<exists>l. rarity_label k = Inr l"
proof -
  assume "0 \<le> k" "k \<le> 4"
  then have "k = 0 \<or> k = 1 \<or> k = 2 \<or> k = 3 \<or> k = 4" by arith
  then show ?thesis by (auto simp: rarity_label_def RARITY_LABELS_def)
qed

lemma nth_mod_mem: "xs \<noteq> [] \<Longrightarrow> xs ! (n mod length xs) \<in> set xs"
  by simp

lemma generate_agent_fields:
  assumes "generate_agent tid k g = Inr (a, g')"
  obtains extras where
    "pick_extras k (stl (stl (stl (stl (stl (stl (stl g))))))) = Inr (extras, g')"
    "accessory (traits a) = dict_get extras ''accessory''"
    "tattoo (traits a) = dict_get extras ''tattoo''"
    "piercing (traits a) = dict_get extras ''piercing''"
    "freckles (traits a) = dict_get extras ''freckles''"
    "token_id a = tid" "num_extras a = k" "prompt a = render_prompt (traits a)"
    "suit_style (traits a) \<in> set SUIT_STYLES" "sunglasses (traits a) \<in> set SUNGLASSES"
    "hair_style (traits a) \<in> set HAIR_STYLES" "hair_color (traits a) \<in> set HAIR_COLORS"
    "skin_tone (traits a) \<in> set SKIN_TONES" "background (traits a) \<in> set BACKGROUNDS"
    "expression (traits a) \<in> set EXPRESSIONS"
  using assms
  by (auto simp: generate_agent_unfold bindE_def nth_mod_mem mandatory_nonempty split: sum.splits)

lemma extras_present_dict:
  assumes "map fst extras = [''accessory'', ''tattoo'', ''piercing'', ''freckles'']"
    "accessory t = dict_get extras ''accessory''"
    "tattoo t = dict_get extras ''tattoo''"
    "piercing t = dict_get extras ''piercing''"
    "freckles t = dict_get extras ''freckles''"
  shows "extras_present t = present_count extras"
proof -
  obtain a b c d where e: "extras = [(''accessory'', a), (''tattoo'', b), (''piercing'', c), (''freckles'', d)]"
    using assms(1) by (auto simp: map_eq_Cons_conv)
  show ?thesis unfolding extras_present_def assms(2-5) unfolding e
    by (simp add: dict_get_def present_count_def)
qed

lemma generate_agent_in_range:
  assumes "0 \<le> k" "k \<le> 4"
  obtains a g' where "generate_agent tid k g = Inr (a, g')"
    and "int (extras_present (traits a)) = k"
proof -
  obtain extras g' where ex: "pick_extras k (stl (stl (stl (stl (stl (stl (stl g))))))) = Inr (extras, g')"
     "map fst extras = [''accessory'', ''tattoo'', ''piercing'', ''freckles'']"
     "present_count extras = nat k"
    using pick_extras_in_range[OF assms] by metis
  obtain l where l: "rarity_label k = Inr l" using rarity_label_in_range[OF assms] by (elim exE)
  obtain a where a: "generate_agent tid k g = Inr (a, g')"
    by (simp add: generate_agent_unfold ex(1) l bindE_def)
  obtain extras' where e': "pick_extras k (stl (stl (stl (stl (stl (stl (stl g))))))) = Inr (extras', g')"
    "accessory (traits a) = dict_get extras' ''accessory''"
    "tattoo (traits a) = dict_get extras' ''tattoo''"
    "piercing (traits a) = dict_get extras' ''piercing''"
    "freckles (traits a) = dict_get extras' ''freckles''"
    using generate_agent_fields[OF a] by metis
  have same: "extras' = extras" using ex(1) e'(1) by simp
  have "extras_present (traits a) = present_count extras"
    using extras_present_dict[OF ex(2) e'(2-5)[unfolded same]] .
  then have "int (extras_present (traits a)) = k" using ex(3) assms by simp
  with a show ?thesis by (rule that)
qed

lemma present_absent_length: "present_count d + absent_count d = length d"
  by (induction d) (auto simp: present_count_def absent_count_def)

text \<open>
  Claim C10. For an extras-count outside the range 0 to 4, \<open>random.sample\<close> raises
  \<open>ValueError\<close>: \<open>pick_extras\<close> fails, and so does \<open>generate_agent\<close>, which produces no
  trait assignment. For an extras-count within the range, \<open>pick_extras\<close> returns the four
  optional categories with exactly that many of them present and the others \<open>None\<close>, and
  the traits of the generated agent carry exactly that many optional values.
\<close>

theorem pick_extras_range:
  "(k < 0 \<or> 4 < k \<longrightarrow>
      pick_extras k g = Inl ValueError \<and> generate_agent tid k g = Inl ValueError)
   \<and> (0 \<le> k \<and> k \<le> 4 \<longrightarrow>
        (\<exists>extras g'. pick_extras k g = Inr (extras, g')
           \<and> map fst extras = [''accessory'', ''tattoo'', ''piercing'', ''freckles'']
           \<and> present_count extras = nat k \<and> absent_count extras = 4 - nat k)
      \<and> (\<exists>a g'. generate_agent tid k g = Inr (a, g') \<and> int (extras_present (traits a)) = k))"
proof (intro conjI impI)
  assume "k < 0 \<or> 4 < k"
  then show "pick_extras k g = Inl ValueError" by (rule pick_extras_out_of_range)
next
  assume "k < 0 \<or> 4 < k"
  then show "generate_agent tid k g = Inl ValueError" by (rule generate_agent_out_of_range)
next
  assume r: "0 \<le> k \<and> k \<le> 4"
  then have k: "0 \<le> k" "k \<le> 4" by simp_all
  from pick_extras_in_range[OF k, of g]
  show "\<exists>extras g'. pick_extras k g = Inr (extras, g')
           \<and> map fst extras = [''accessory'', ''tattoo'', ''piercing'', ''freckles'']
           \<and> present_count extras = nat k \<and> absent_count extras = 4 - nat k"
    by metis
next
  assume r: "0 \<le> k \<and> k \<le> 4"
  then have k: "0 \<le> k" "k \<le> 4" by simp_all
  from generate_agent_in_range[OF k, of tid g]
  show "\<exists>a g'. generate_agent tid k g = Inr (a, g') \<and> int (extras_present (traits a)) = k"
    by metis
qed

text \<open>Five extras and minus one extra are refused; two extras give two present values.\<close>

theorem pick_extras_range_witness:
  "((5::int) < 0 \<or> (4::int) < 5) \<and> (0 \<le> (2::int) \<and> (2::int) \<le> 4)
   \<and> pick_extras 5 (sconst 0) = Inl ValueError
   \<and> pick_extras (- 1) (sconst 0) = Inl ValueError
   \<and> generate_agent 1 5 (sconst 0) = Inl ValueError
   \<and> (\<exists>extras g'. pick_extras 2 (sconst 0) = Inr (extras, g')
         \<and> map fst extras = [''accessory'', ''tattoo'', ''piercing'', ''freckles'']
         \<and> present_count extras = nat 2 \<and> absent_count extras = 4 - nat 2)
   \<and> (\<exists>a g'. generate_agent 1 2 (sconst 0) = Inr (a, g') \<and> int (extras_present (traits a)) = 2)"
  using pick_extras_range[of 5 "sconst 0" 1] pick_extras_range[of 2 "sconst 0" 1]
    pick_extras_range[of "- 1" "sconst 0" 1]
  by simp

subsection \<open>The rarity schedule\<close>







subsection \<open>Uniqueness of the generated combinations\<close>

lemma unique_agent_inv:
  "unique_inv st \<Longrightarrow> unique_agent tid n st = Inr st' \<Longrightarrow>
   unique_inv st' \<and> length (agents st') = length (agents st) + 1"
proof (induction tid n st rule: unique_agent.induct)
  case (1 tid n st)
  show ?case
  proof (cases "attempts st < max_attempts")
    case False
    then show ?thesis using "1.prems" by (simp add: unique_agent.simps)
  next
    case True
    show ?thesis
    proof (cases "generate_agent tid n (rand st)")
      case (Inl e)
      then show ?thesis using True "1.prems" by (simp add: unique_agent.simps)
    next
      case (Inr r)
      obtain a g1 where r: "r = (a, g1)" by (cases r)
      show ?thesis
      proof (cases "combo_key (traits a) \<in> seen_combos st")
        case fresh: False
        then show ?thesis using True Inr r "1.prems"
          by (auto simp: unique_agent.simps[of tid n st] unique_inv_def keys_of_def)
      next
        case dup: True
        let ?st1 = "st\<lparr>attempts := attempts st + 1, rand := g1\<rparr>"
        have inv1: "unique_inv ?st1" using "1.prems"(1) by (simp add: unique_inv_def keys_of_def)
        have run: "unique_agent tid n ?st1 = Inr st'"
          using True Inr r dup "1.prems"(2) by (simp add: unique_agent.simps[of tid n st])
        show ?thesis using "1.IH"[OF True Inr r[symmetric] _ inv1 run] dup by simp
      qed
    qed
  qed
qed

lemma generate_all_inv:
  "unique_inv st \<Longrightarrow> generate_all i schedule st = Inr st' \<Longrightarrow>
   unique_inv st' \<and> length (agents st') = length (agents st) + length schedule"
proof (induction schedule arbitrary: i st)
  case Nil
  then show ?case by simp
next
  case (Cons n rest)
  obtain st1 where s1: "unique_agent (i + 1) n st = Inr st1" and s2: "generate_all (i + 1) rest st1 = Inr st'"
    using Cons.prems(2) by (auto split: sum.splits)
  show ?case using unique_agent_inv[OF Cons.prems(1) s1] Cons.IH[OF _ s2] by simp
qed

lemma distinct_map_comp: "distinct (map (\<lambda>x. f (g x)) xs) \<Longrightarrow> distinct (map g xs)"
  by (induction xs) auto

lemma pool_lengths:
  "length SUIT_STYLES = 14" "length SUNGLASSES = 10" "length HAIR_STYLES = 16"
  "length HAIR_COLORS = 17" "length SKIN_TONES = 12" "length BACKGROUNDS = 27"
  "length EXPRESSIONS = 5" "length ACCESSORIES = 13" "length TATTOOS = 15"
  "length PIERCINGS = 12" "length FRECKLES = 4"
  by (simp_all add: SUIT_STYLES_def SUNGLASSES_def HAIR_STYLES_def HAIR_COLORS_def
      SKIN_TONES_def BACKGROUNDS_def EXPRESSIONS_def ACCESSORIES_def TATTOOS_def
      PIERCINGS_def FRECKLES_def)

lemma suit_0_1: "SUIT_STYLES ! Suc 0 \<noteq> SUIT_STYLES ! 0"
  by (simp add: SUIT_STYLES_def)

lemma optional_nonempty:
  "ACCESSORIES \<noteq> []" "TATTOOS \<noteq> []" "PIERCINGS \<noteq> []" "FRECKLES \<noteq> []"
  using pool_lengths by auto

text \<open>
  Claim C1. In every run that ends with the agents generated (for any weight table and
  collection size, so for the table of the program and \<open>N = 2000\<close>), the combination keys
  of the agents are pairwise distinct, and so are their trait assignments; the set of seen
  combinations is the set of these keys, and its cardinality is the number of agents, which
  is the length of the schedule.
\<close>

theorem main_unique:
  assumes "main_with weights N g = Inr st"
  shows "distinct (map (\<lambda>a. combo_key (traits a)) (agents st))
         \<and> distinct (map traits (agents st))
         \<and> seen_combos st = set (map (\<lambda>a. combo_key (traits a)) (agents st))
         \<and> card (seen_combos st) = length (agents st)
         \<and> length (agents st) = N"
proof -
  obtain schedule g1 where sch: "rarity_schedule weights N g = Inr (schedule, g1)"
    and run: "generate_all 0 schedule \<lparr> seen_combos = {}, agents = [], attempts = 0, rand = g1 \<rparr> = Inr st"
    using assms by (auto simp: main_with_def split: sum.splits)
  have len: "length schedule = N"
    using sch shuffle_length[of "build_schedule weights" g]
    by (auto simp: rarity_schedule_def Let_def split: if_splits)
  have inv0: "unique_inv \<lparr> seen_combos = {}, agents = [], attempts = 0, rand = g1 \<rparr>"
    by (simp add: unique_inv_def keys_of_def)
  have inv: "unique_inv st" and n: "length (agents st) = length schedule"
    using generate_all_inv[OF inv0 run] by simp_all
  have d: "distinct (map (\<lambda>a. combo_key (traits a)) (agents st))"
    and s: "seen_combos st = set (map (\<lambda>a. combo_key (traits a)) (agents st))"
    using inv by (simp_all add: unique_inv_def keys_of_def)
  have c: "card (seen_combos st) = length (agents st)"
    unfolding s using distinct_card[OF d] by simp
  show ?thesis using d distinct_map_comp[of combo_key traits, OF d] s c n len by simp
qed

text \<open>
  The run on the example draws: three agents after four attempts, one attempt having
  repeated an earlier combination.
\<close>

theorem main_unique_witness:
  "\<exists>st. main_with [(0, 2), (1, 1)] 3 example_tape = Inr st \<and> attempts st = 4
     \<and> distinct (map (\<lambda>a. combo_key (traits a)) (agents st))
     \<and> distinct (map traits (agents st))
     \<and> seen_combos st = set (map (\<lambda>a. combo_key (traits a)) (agents st))
     \<and> card (seen_combos st) = length (agents st)
     \<and> length (agents st) = 3"
proof -
  have "\<exists>st. main_with [(0, 2), (1, 1)] 3 example_tape = Inr st \<and> attempts st = 4"
    by (simp add: example_tape_def main_with_def rarity_schedule_def shuffle_def randbelow_def
      numeral_2_eq_2 unique_agent.simps generate_agent_unfold pool_lengths optional_nonempty
      pick_extras_def sample_def OPTIONAL_CATEGORIES_def choice_def bindE_def rarity_label_def
      RARITY_LABELS_def combo_key_def dict_get_def max_attempts_def suit_0_1)
  then obtain st where st: "main_with [(0, 2), (1, 1)] 3 example_tape = Inr st" "attempts st = 4"
    by (elim exE conjE)
  from main_unique[OF st(1)] st show ?thesis
    by (intro exI[of _ st] conjI) (elim conjE, assumption)+
qed

subsection \<open>The prompt renderer\<close>

lemma sublist_separator:
  assumes "c \<notin> set m" "sublist m (a @ c # b)"
  shows "sublist m a \<or> sublist m b"
proof -
  from assms(2) obtain ps ss where e: "a @ c # b = ps @ m @ ss" by (auto simp: sublist_def)
  then consider us where "a = ps @ us" "us @ c # b = m @ ss"
    | us where "a @ us = ps" "c # b = us @ m @ ss"
    by (auto simp: append_eq_append_conv2)
  then show ?thesis
  proof cases
    case 1
    from 1(2) consider vs where "us = m @ vs"
      | vs where "us @ vs = m" "c # b = vs @ ss"
      by (auto simp: append_eq_append_conv2)
    then show ?thesis
    proof cases
      case 1
      then have "sublist m a" using \<open>a = ps @ us\<close> by simp
      then show ?thesis ..
    next
      case 2
      show ?thesis
      proof (cases vs)
        case Nil
        then have "a = ps @ m" using 2 \<open>a = ps @ us\<close> by simp
        then have "sublist m a" by simp
        then show ?thesis ..
      next
        case (Cons v vs')
        then have "c \<in> set m" using 2 by auto
        then show ?thesis using assms(1) by simp
      qed
    qed
  next
    case 2
    show ?thesis
    proof (cases us)
      case Nil
      then have "c # b = m @ ss" using 2 by simp
      then show ?thesis using assms(1) by (cases m) auto
    next
      case (Cons u us')
      then have "b = us' @ m @ ss" using 2 by simp
      then have "sublist m b" by simp
      then show ?thesis ..
    qed
  qed
qed

lemma markers_no_separator: "\<forall>m \<in> set markers. CHR '' '' \<notin> set m \<and> CHR '','' \<notin> set m \<and> m \<noteq> []"
  by (simp add: markers_def)

lemma marker_free_Nil: "marker_free []"
  using markers_no_separator by (auto simp: marker_free_def list_all_iff)

lemma marker_free_space:
  "marker_free a \<Longrightarrow> marker_free b \<Longrightarrow> marker_free (a @ CHR '' '' # b)"
  using markers_no_separator sublist_separator[of "CHR '' ''" _ a b]
  by (auto simp: marker_free_def list_all_iff)

lemma marker_free_comma:
  "marker_free a \<Longrightarrow> marker_free b \<Longrightarrow> marker_free (a @ CHR '','' # b)"
  using markers_no_separator sublist_separator[of "CHR '',''" _ a b]
  by (auto simp: marker_free_def list_all_iff)

lemma marker_free_join:
  "marker_free a \<Longrightarrow> marker_free b \<Longrightarrow> marker_free (a @ '', '' @ b)"
  using marker_free_comma[of a "CHR '' '' # b"] marker_free_space[of "[]" b] marker_free_Nil
  by simp

lemma marker_free_SUIT: "list_all marker_free SUIT_STYLES" by code_simp

lemma marker_free_SUN: "list_all marker_free SUNGLASSES" by code_simp

lemma marker_free_HS: "list_all marker_free HAIR_STYLES" by code_simp

lemma marker_free_HC: "list_all marker_free HAIR_COLORS" by code_simp

lemma marker_free_SKIN: "list_all marker_free SKIN_TONES" by code_simp

lemma marker_free_BG: "list_all marker_free BACKGROUNDS" by code_simp

lemma marker_free_EX: "list_all marker_free EXPRESSIONS" by code_simp

lemma marker_free_fixed:
  "marker_free ''Chibi agent, oversized head, large glossy black eyes with white highlights''"
  "marker_free ''chest-up portrait''" "marker_free ''background''"
  "marker_free ''kawaii digital art, NFT collectible card style''"
  by code_simp+

lemma vocabulary_has_marker: "list_all has_marker optional_vocabulary"
  by code_simp

lemma vocabulary_distinct: "distinct optional_vocabulary"
  by code_simp

lemma sublist_transitive: "sublist a b \<Longrightarrow> sublist b c \<Longrightarrow> sublist a c"
  by (rule sublist_order.order_trans)

lemma optional_part_length: "length (optional_part v) = (if is_present v then 1 else 0)"
  by (cases v) (auto simp: optional_part_def is_present_def)

lemma optional_part_absent: "optional_part None = []"
  by (simp add: optional_part_def)

lemma optional_part_set: "f \<in> set (optional_part v) \<Longrightarrow> v = Some f \<and> f \<noteq> []"
  by (cases v) (auto simp: optional_part_def split: if_splits)

lemma prompt_parts_length:
  "length (prompt_parts t) =
     9 + length (filter is_present [freckles t, accessory t, tattoo t, piercing t])"
  by (simp add: prompt_parts_def optional_part_length)

lemma prompt_parts_no_extras:
  "no_extras t \<Longrightarrow> prompt_parts t =
     [''Chibi agent, oversized head, large glossy black eyes with white highlights'',
      hair_color t @ '' '' @ hair_style t, skin_tone t, expression t, suit_style t,
      sunglasses t, ''chest-up portrait'', background t @ '' background'',
      ''kawaii digital art, NFT collectible card style'']"
  by (simp add: prompt_parts_def no_extras_def optional_part_absent)

lemma prompt_parts_nonempty:
  "skin_tone t \<noteq> [] \<Longrightarrow> expression t \<noteq> [] \<Longrightarrow> suit_style t \<noteq> [] \<Longrightarrow> sunglasses t \<noteq> []
   \<Longrightarrow> [] \<notin> set (prompt_parts t)"
  by (auto simp: prompt_parts_def dest: optional_part_set)

lemma pool_marker_free: "list_all marker_free pool \<Longrightarrow> x \<in> set pool \<Longrightarrow> marker_free x"
  by (simp add: list_all_iff)

lemma base_marker_free:
  assumes "mandatory_from_pools t"
  shows "marker_free (hair_color t @ '' '' @ hair_style t)" "marker_free (skin_tone t)"
    "marker_free (expression t)" "marker_free (suit_style t)" "marker_free (sunglasses t)"
    "marker_free (background t @ '' background'')"
proof -
  have m: "marker_free (hair_color t)" "marker_free (hair_style t)" "marker_free (background t)"
    using assms pool_marker_free[OF marker_free_HC] pool_marker_free[OF marker_free_HS]
      pool_marker_free[OF marker_free_BG]
    by (simp_all add: mandatory_from_pools_def)
  show "marker_free (hair_color t @ '' '' @ hair_style t)"
    using marker_free_space[OF m(1,2)] by simp
  show "marker_free (background t @ '' background'')"
    using marker_free_space[OF m(3) marker_free_fixed(3)] by simp
  show "marker_free (skin_tone t)" "marker_free (expression t)" "marker_free (suit_style t)"
    "marker_free (sunglasses t)"
    using assms pool_marker_free[OF marker_free_SKIN] pool_marker_free[OF marker_free_EX]
      pool_marker_free[OF marker_free_SUIT] pool_marker_free[OF marker_free_SUN]
    by (simp_all add: mandatory_from_pools_def)
qed

lemma marker_free_not_vocabulary:
  assumes "marker_free s" "v \<in> set optional_vocabulary"
  shows "\<not> sublist v s"
proof
  assume sub: "sublist v s"
  have "has_marker v" using vocabulary_has_marker assms(2) by (simp add: list_all_iff)
  then obtain m where m: "m \<in> set markers" "sublist m v"
    by (auto simp: has_marker_def list_ex_iff)
  have "sublist m s" using m(2) sub by (rule sublist_transitive)
  then show False using assms(1) m(1) by (auto simp: marker_free_def list_all_iff)
qed

lemma render_prompt_marker_free:
  assumes "mandatory_from_pools t" "no_extras t"
  shows "marker_free (render_prompt t)"
proof -
  note b = base_marker_free[OF assms(1)]
  have "render_prompt t =
      ''Chibi agent, oversized head, large glossy black eyes with white highlights'' @ '', '' @
      (hair_color t @ '' '' @ hair_style t) @ '', '' @ skin_tone t @ '', '' @ expression t @ '', '' @
      suit_style t @ '', '' @ sunglasses t @ '', '' @ ''chest-up portrait'' @ '', '' @
      (background t @ '' background'') @ '', '' @
      ''kawaii digital art, NFT collectible card style''"
    unfolding render_prompt_def prompt_parts_no_extras[OF assms(2)] by simp
  also have "marker_free \<dots>"
    by (intro marker_free_join b marker_free_fixed)
  finally show ?thesis .
qed

lemma pools_disjoint:
  "set ACCESSORIES \<inter> set TATTOOS = {}" "set ACCESSORIES \<inter> set PIERCINGS = {}"
  "set ACCESSORIES \<inter> set FRECKLES = {}" "set TATTOOS \<inter> set PIERCINGS = {}"
  "set TATTOOS \<inter> set FRECKLES = {}" "set PIERCINGS \<inter> set FRECKLES = {}"
  using vocabulary_distinct by (auto simp: optional_vocabulary_def)

lemma in_vocabulary:
  "v \<in> set ACCESSORIES \<Longrightarrow> v \<in> set optional_vocabulary"
  "v \<in> set TATTOOS \<Longrightarrow> v \<in> set optional_vocabulary"
  "v \<in> set PIERCINGS \<Longrightarrow> v \<in> set optional_vocabulary"
  "v \<in> set FRECKLES \<Longrightarrow> v \<in> set optional_vocabulary"
  by (simp_all add: optional_vocabulary_def)

lemma fragment_cases:
  assumes "f \<in> set (prompt_parts t)" "mandatory_from_pools t"
  shows "marker_free f \<or> accessory t = Some f \<or> tattoo t = Some f \<or> piercing t = Some f
         \<or> freckles t = Some f"
  using assms(1) base_marker_free[OF assms(2)] marker_free_fixed
  by (auto simp: prompt_parts_def dest: optional_part_set)

lemma not_marker_free_vocabulary: "v \<in> set optional_vocabulary \<Longrightarrow> \<not> marker_free v"
  using marker_free_not_vocabulary[of v v] by auto

lemma absent_pool_no_fragment:
  assumes "mandatory_from_pools t" "optional_from_pools t"
  shows "accessory t = None \<Longrightarrow> set ACCESSORIES \<inter> set (prompt_parts t) = {}"
    and "tattoo t = None \<Longrightarrow> set TATTOOS \<inter> set (prompt_parts t) = {}"
    and "piercing t = None \<Longrightarrow> set PIERCINGS \<inter> set (prompt_parts t) = {}"
    and "freckles t = None \<Longrightarrow> set FRECKLES \<inter> set (prompt_parts t) = {}"
proof -
  have fp: "accessory t = Some f \<Longrightarrow> f \<in> set ACCESSORIES" "tattoo t = Some f \<Longrightarrow> f \<in> set TATTOOS"
    "piercing t = Some f \<Longrightarrow> f \<in> set PIERCINGS" "freckles t = Some f \<Longrightarrow> f \<in> set FRECKLES" for f
    using assms(2) by (auto simp: optional_from_pools_def from_pool_def)
  show "accessory t = None \<Longrightarrow> set ACCESSORIES \<inter> set (prompt_parts t) = {}"
    using fragment_cases[OF _ assms(1)] fp pools_disjoint not_marker_free_vocabulary in_vocabulary
    by (auto simp: disjoint_iff) blast+
  show "tattoo t = None \<Longrightarrow> set TATTOOS \<inter> set (prompt_parts t) = {}"
    using fragment_cases[OF _ assms(1)] fp pools_disjoint not_marker_free_vocabulary in_vocabulary
    by (auto simp: disjoint_iff) blast+
  show "piercing t = None \<Longrightarrow> set PIERCINGS \<inter> set (prompt_parts t) = {}"
    using fragment_cases[OF _ assms(1)] fp pools_disjoint not_marker_free_vocabulary in_vocabulary
    by (auto simp: disjoint_iff) blast+
  show "freckles t = None \<Longrightarrow> set FRECKLES \<inter> set (prompt_parts t) = {}"
    using fragment_cases[OF _ assms(1)] fp pools_disjoint not_marker_free_vocabulary in_vocabulary
    by (auto simp: disjoint_iff) blast+
qed

lemma pick_extras_loop_pools:
  "pick_extras_loop cats cs g = Inr (r, g') \<Longrightarrow>
   list_all2 (\<lambda>(name, pool) (name', v). name' = name \<and> from_pool pool v) cs r"
proof (induction cs arbitrary: g r)
  case Nil
  then show ?case by simp
next
  case (Cons c cs)
  obtain name pool where c: "c = (name, pool)" by (cases c)
  show ?case
  proof (cases "(name, pool) \<in> set cats")
    case True
    from Cons.prems True c obtain v g1 r' where
      ch: "choice pool g = Inr (v, g1)" and
      rest: "pick_extras_loop cats cs g1 = Inr (r', g')" and r: "r = (name, Some v) # r'"
      by (auto simp: bindE_def split: sum.splits)
    have "v \<in> set pool" using ch
      by (auto simp: choice_def randbelow_def split: if_splits)
    then show ?thesis using Cons.IH[OF rest] r c by (simp add: from_pool_def)
  next
    case False
    from Cons.prems False c obtain r' where
      rest: "pick_extras_loop cats cs g = Inr (r', g')" and r: "r = (name, None) # r'"
      by (auto simp: bindE_def split: sum.splits)
    show ?thesis using Cons.IH[OF rest] r c by (simp add: from_pool_def)
  qed
qed

lemma pick_extras_pools:
  assumes "pick_extras k g = Inr (extras, g')"
  shows "from_pool ACCESSORIES (dict_get extras ''accessory'')"
    "from_pool TATTOOS (dict_get extras ''tattoo'')"
    "from_pool PIERCINGS (dict_get extras ''piercing'')"
    "from_pool FRECKLES (dict_get extras ''freckles'')"
proof -
  from assms obtain cats g1 where "pick_extras_loop cats OPTIONAL_CATEGORIES g1 = Inr (extras, g')"
    by (auto simp: pick_extras_def bindE_def split: sum.splits)
  from pick_extras_loop_pools[OF this]
  obtain a b c d where e: "extras = [(''accessory'', a), (''tattoo'', b), (''piercing'', c), (''freckles'', d)]"
    and p: "from_pool ACCESSORIES a" "from_pool TATTOOS b" "from_pool PIERCINGS c" "from_pool FRECKLES d"
    by (auto simp: OPTIONAL_CATEGORIES_def list_all2_Cons1)
  show "from_pool ACCESSORIES (dict_get extras ''accessory'')"
    "from_pool TATTOOS (dict_get extras ''tattoo'')"
    "from_pool PIERCINGS (dict_get extras ''piercing'')"
    "from_pool FRECKLES (dict_get extras ''freckles'')"
    using p unfolding e by (simp_all add: dict_get_def)
qed

lemma generate_agent_from_pools:
  assumes "generate_agent tid k g = Inr (a, g')"
  shows "prompt a = render_prompt (traits a)" "mandatory_from_pools (traits a)"
    "optional_from_pools (traits a)" "k = 0 \<Longrightarrow> no_extras (traits a)"
proof -
  from generate_agent_fields[OF assms] obtain extras where
    f: "pick_extras k (stl (stl (stl (stl (stl (stl (stl g))))))) = Inr (extras, g')"
    "accessory (traits a) = dict_get extras ''accessory''"
    "tattoo (traits a) = dict_get extras ''tattoo''"
    "piercing (traits a) = dict_get extras ''piercing''"
    "freckles (traits a) = dict_get extras ''freckles''"
    "prompt a = render_prompt (traits a)"
    "suit_style (traits a) \<in> set SUIT_STYLES" "sunglasses (traits a) \<in> set SUNGLASSES"
    "hair_style (traits a) \<in> set HAIR_STYLES" "hair_color (traits a) \<in> set HAIR_COLORS"
    "skin_tone (traits a) \<in> set SKIN_TONES" "background (traits a) \<in> set BACKGROUNDS"
    "expression (traits a) \<in> set EXPRESSIONS"
    by metis
  show "prompt a = render_prompt (traits a)" by (rule f(6))
  show "mandatory_from_pools (traits a)" using f(7-13) by (simp add: mandatory_from_pools_def)
  show "optional_from_pools (traits a)"
    using pick_extras_pools[OF f(1)] f(2-5) by (simp add: optional_from_pools_def)
  show "no_extras (traits a)" if "k = 0"
  proof -
    have r: "0 \<le> k" "k \<le> 4" using that by simp_all
    from generate_agent_in_range[OF r, of tid g] obtain a' g'' where
      "generate_agent tid k g = Inr (a', g'')" "int (extras_present (traits a')) = k" by metis
    then have "extras_present (traits a) = 0" using assms that by simp
    then show ?thesis
      by (auto simp: extras_present_def no_extras_def split: if_splits)
  qed
qed

lemma plain_from_pools: "mandatory_from_pools plain_traits" "mandatory_from_pools cuffed_traits"
  by (simp_all add: mandatory_from_pools_def plain_traits_def cuffed_traits_def SUIT_STYLES_def
      SUNGLASSES_def HAIR_STYLES_def HAIR_COLORS_def SKIN_TONES_def BACKGROUNDS_def
      EXPRESSIONS_def)

lemma cuffed_from_pools: "optional_from_pools cuffed_traits"
  by (simp add: optional_from_pools_def from_pool_def plain_traits_def cuffed_traits_def
      ACCESSORIES_def)

text \<open>
  Claim C9. The prompt is the list of fragments joined by a comma and a space, and the
  list has nine fragments plus one for each optional trait that is present: an absent
  trait contributes no fragment, and no fragment is empty when the mandatory values are
  not. For an assignment drawn from the pools, no value of the pool of an absent category
  is a fragment of the prompt. For an assignment drawn from the pools with no optional
  trait at all, no value of the four optional pools occurs anywhere in the prompt, not even
  inside another fragment. The agents that \<open>generate_agent\<close> returns are of this kind:
  their prompt is the rendering of their traits, which are drawn from the pools.
\<close>

theorem prompt_elides_absent:
  "length (prompt_parts t) =
     9 + length (filter is_present [freckles t, accessory t, tattoo t, piercing t])
   \<and> render_prompt t = join '', '' (prompt_parts t)
   \<and> (skin_tone t \<noteq> [] \<and> expression t \<noteq> [] \<and> suit_style t \<noteq> [] \<and> sunglasses t \<noteq> [] \<longrightarrow>
        [] \<notin> set (prompt_parts t))
   \<and> (mandatory_from_pools t \<and> optional_from_pools t \<longrightarrow>
        (accessory t = None \<longrightarrow> set ACCESSORIES \<inter> set (prompt_parts t) = {})
        \<and> (tattoo t = None \<longrightarrow> set TATTOOS \<inter> set (prompt_parts t) = {})
        \<and> (piercing t = None \<longrightarrow> set PIERCINGS \<inter> set (prompt_parts t) = {})
        \<and> (freckles t = None \<longrightarrow> set FRECKLES \<inter> set (prompt_parts t) = {}))
   \<and> (mandatory_from_pools t \<and> no_extras t \<longrightarrow>
        (\<forall>v \<in> set optional_vocabulary. \<not> sublist v (render_prompt t)))
   \<and> (generate_agent tid k g = Inr (a, g') \<longrightarrow>
        prompt a = render_prompt (traits a) \<and> mandatory_from_pools (traits a)
        \<and> optional_from_pools (traits a)
        \<and> (k = 0 \<longrightarrow> (\<forall>v \<in> set optional_vocabulary. \<not> sublist v (prompt a))))"
proof (intro conjI impI ballI)
  show "length (prompt_parts t) =
     9 + length (filter is_present [freckles t, accessory t, tattoo t, piercing t])"
    by (rule prompt_parts_length)
  show "render_prompt t = join '', '' (prompt_parts t)" by (simp add: render_prompt_def)
next
  assume "skin_tone t \<noteq> [] \<and> expression t \<noteq> [] \<and> suit_style t \<noteq> [] \<and> sunglasses t \<noteq> []"
  then show "[] \<notin> set (prompt_parts t)" by (intro prompt_parts_nonempty) simp_all
next
  assume h: "mandatory_from_pools t \<and> optional_from_pools t"
  then have m: "mandatory_from_pools t" and p: "optional_from_pools t" by simp_all
  note r = absent_pool_no_fragment[OF m p]
  show "accessory t = None \<Longrightarrow> set ACCESSORIES \<inter> set (prompt_parts t) = {}" by (rule r(1))
  show "tattoo t = None \<Longrightarrow> set TATTOOS \<inter> set (prompt_parts t) = {}" by (rule r(2))
  show "piercing t = None \<Longrightarrow> set PIERCINGS \<inter> set (prompt_parts t) = {}" by (rule r(3))
  show "freckles t = None \<Longrightarrow> set FRECKLES \<inter> set (prompt_parts t) = {}" by (rule r(4))
next
  fix v assume h: "mandatory_from_pools t \<and> no_extras t" and v: "v \<in> set optional_vocabulary"
  from h have "marker_free (render_prompt t)" by (intro render_prompt_marker_free) simp_all
  then show "\<not> sublist v (render_prompt t)" using v by (rule marker_free_not_vocabulary)
next
  assume g: "generate_agent tid k g = Inr (a, g')"
  note f = generate_agent_from_pools[OF g]
  show "prompt a = render_prompt (traits a)" by (rule f(1))
  show "mandatory_from_pools (traits a)" by (rule f(2))
  show "optional_from_pools (traits a)" by (rule f(3))
  fix v assume k: "k = 0" and v: "v \<in> set optional_vocabulary"
  have "marker_free (render_prompt (traits a))"
    using f(2) f(4)[OF k] by (rule render_prompt_marker_free)
  then show "\<not> sublist v (prompt a)" unfolding f(1) using v by (rule marker_free_not_vocabulary)
qed

text \<open>
  With the accessory \<open>chain connecting ear cuff to collar\<close> and no piercing, no value of
  the piercing pool is a fragment; without optional traits the prompt has nine fragments
  and no word of the optional pools.
\<close>

theorem prompt_elides_absent_witness:
  "length (prompt_parts cuffed_traits) = 10
   \<and> [] \<notin> set (prompt_parts cuffed_traits)
   \<and> set TATTOOS \<inter> set (prompt_parts cuffed_traits) = {}
   \<and> set PIERCINGS \<inter> set (prompt_parts cuffed_traits) = {}
   \<and> set FRECKLES \<inter> set (prompt_parts cuffed_traits) = {}
   \<and> length (prompt_parts plain_traits) = 9
   \<and> render_prompt plain_traits =
       ''Chibi agent, oversized head, large glossy black eyes with white highlights, '' @
       ''pink mohawk, tan skin, tiny flat mouth, black suit black tie, oval black sunglasses, '' @
       ''chest-up portrait, foggy black helicopter tarmac background, '' @
       ''kawaii digital art, NFT collectible card style''
   \<and> list_all (\<lambda>v. \<not> sublist v (render_prompt plain_traits)) optional_vocabulary
   \<and> (\<exists>a g'. generate_agent 1 0 (sconst 0) = Inr (a, g')
         \<and> list_all (\<lambda>v. \<not> sublist v (prompt a)) optional_vocabulary)"
proof -
  have ne: "skin_tone cuffed_traits \<noteq> [] \<and> expression cuffed_traits \<noteq> []
     \<and> suit_style cuffed_traits \<noteq> [] \<and> sunglasses cuffed_traits \<noteq> []"
    by (simp add: cuffed_traits_def plain_traits_def)
  have h4: "mandatory_from_pools cuffed_traits \<and> optional_from_pools cuffed_traits"
    using plain_from_pools(2) cuffed_from_pools by simp
  have h5: "mandatory_from_pools plain_traits \<and> no_extras plain_traits"
    using plain_from_pools(1) by (simp add: no_extras_def plain_traits_def)
  have abs: "tattoo cuffed_traits = None" "piercing cuffed_traits = None" "freckles cuffed_traits = None"
    by (simp_all add: cuffed_traits_def plain_traits_def)
  obtain a g' where run: "generate_agent 1 0 (sconst 0) = Inr (a, g')"
    by (rule generate_agent_in_range[of 0 1 "sconst 0"]) simp_all
  note c = prompt_elides_absent[of cuffed_traits]
  note p = prompt_elides_absent[of plain_traits]
  note g = prompt_elides_absent[of _ 1 0 "sconst 0" a g']
  note c1 = c[THEN conjunct1]
  note c3 = c[THEN conjunct2, THEN conjunct2, THEN conjunct1, THEN mp, OF ne]
  note c4 = c[THEN conjunct2, THEN conjunct2, THEN conjunct2, THEN conjunct1, THEN mp, OF h4]
  note p1 = p[THEN conjunct1]
  note p2 = p[THEN conjunct2, THEN conjunct1]
  note p5 = p[THEN conjunct2, THEN conjunct2, THEN conjunct2, THEN conjunct2, THEN conjunct1,
      THEN mp, OF h5]
  note g6 = g[THEN conjunct2, THEN conjunct2, THEN conjunct2, THEN conjunct2, THEN conjunct2,
      THEN mp, OF run]
  have l1: "length (prompt_parts cuffed_traits) = 10"
    using c1 by (simp add: cuffed_traits_def plain_traits_def is_present_def)
  have l2: "length (prompt_parts plain_traits) = 9"
    using p1 by (simp add: plain_traits_def is_present_def)
  have r: "render_prompt plain_traits =
       ''Chibi agent, oversized head, large glossy black eyes with white highlights, '' @
       ''pink mohawk, tan skin, tiny flat mouth, black suit black tie, oval black sunglasses, '' @
       ''chest-up portrait, foggy black helicopter tarmac background, '' @
       ''kawaii digital art, NFT collectible card style''"
    unfolding p2 by (simp add: prompt_parts_def plain_traits_def optional_part_def)
  have v1: "list_all (\<lambda>v. \<not> sublist v (render_prompt plain_traits)) optional_vocabulary"
    using p5 by (simp add: list_all_iff)
  have v2: "list_all (\<lambda>v. \<not> sublist v (prompt a)) optional_vocabulary"
    using g6 unfolding list_all_iff by blast
  show ?thesis
    using l1 c3 c4 abs l2 r v1 run v2 by (intro conjI exI[of _ a] exI[of _ g']) simp_all
qed

section \<open>Properties of the job pipeline\<close>

subsection \<open>Traces and single steps\<close>

lemma bindE_simps [simp]: "bindE (Inl e) f = Inl e" "bindE (Inr v) f = f v"
  by (simp_all add: bindE_def)

lemma polls_simps [simp]:
  "polls [] = 0" "polls (es @ es') = polls es + polls es'"
  "polls (Poll u # es) = Suc (polls es)" "polls (SleepPoll # es) = polls es"
  "polls (Submit p # es) = polls es" "polls (Fetch u # es) = polls es"
  "polls (Download u # es) = polls es" "polls (SleepBackoff n # es) = polls es"
  "polls (SleepDelay # es) = polls es"
  by (simp_all add: polls_def)

lemma submits_simps [simp]:
  "submits [] = 0" "submits (es @ es') = submits es + submits es'"
  "submits (Poll u # es) = submits es" "submits (SleepPoll # es) = submits es"
  "submits (Submit p # es) = Suc (submits es)" "submits (Fetch u # es) = submits es"
  "submits (Download u # es) = submits es" "submits (SleepBackoff n # es) = submits es"
  "submits (SleepDelay # es) = submits es"
  by (simp_all add: submits_def)

lemma request_simps [simp]:
  "fst (request c w) = shd (replies w)"
  "events (snd (request c w)) = events w @ [c]"
  "replies (snd (request c w)) = stl (replies w)"
  "files (snd (request c w)) = files w"
  by (simp_all add: request_def)

lemma sleep_simps [simp]:
  "events (sleep e w) = events w @ [e]" "replies (sleep e w) = replies w"
  "files (sleep e w) = files w"
  by (simp_all add: sleep_def)

lemma poll_loop_Suc:
  "poll_loop (Suc n) (JStr u) w =
     (case poll_status (shd (replies w)) of
        Inl e \<Rightarrow> (Inl e, snd (request (Poll u) w))
      | Inr status \<Rightarrow>
          if status = JStr ''COMPLETED'' then (Inr ''COMPLETED'', snd (request (Poll u) w))
          else if status = JStr ''FAILED'' \<or> status = JStr ''CANCELLED''
          then (Inl (RuntimeError ''Request FAILED or CANCELLED''), snd (request (Poll u) w))
          else poll_loop n (JStr u) (sleep SleepPoll (snd (request (Poll u) w))))"
  by (simp add: case_prod_beta)


lemma poll_loop_not_url:
  "url_arg url = Inl e \<Longrightarrow> poll_loop n url w = (if n = 0 then (Inl TimeoutError, w) else (Inl e, w))"
  by (cases n) simp_all

lemma url_arg_cases: obtains u where "url = JStr u" | "url_arg url = Inl RequestException"
  by (cases url) auto

subsection \<open>The poll loop\<close>

text \<open>Every poll loop stops within its budget, and touches neither files nor submissions.\<close>

lemma poll_loop_bound:
  "polls (events (snd (poll_loop n url w))) \<le> polls (events w) + n
   \<and> submits (events (snd (poll_loop n url w))) = submits (events w)
   \<and> files (snd (poll_loop n url w)) = files w"
proof (cases url rule: url_arg_cases)
  case 2
  then show ?thesis by (simp add: poll_loop_not_url)
next
  case (1 u)
  show ?thesis unfolding 1
  proof (induction n arbitrary: w)
    case 0
    then show ?case by simp
  next
    case (Suc n)
    let ?w1 = "sleep SleepPoll (snd (request (Poll u) w))"
    have IH: "polls (events (snd (poll_loop n (JStr u) ?w1))) \<le> polls (events ?w1) + n
       \<and> submits (events (snd (poll_loop n (JStr u) ?w1))) = submits (events ?w1)
       \<and> files (snd (poll_loop n (JStr u) ?w1)) = files ?w1"
      by (rule Suc.IH)
    show ?case using IH
      by (auto simp: poll_loop_Suc simp del: poll_loop.simps split: sum.splits)
  qed
qed




lemma reply_status [simp]:
  "in_progress pending_reply" "\<not> in_progress completed_reply" "\<not> in_progress failed_reply"
  "reports ''COMPLETED'' completed_reply" "reports ''FAILED'' failed_reply"
  by (simp_all add: in_progress_def reports_def poll_status_def pending_reply_def
      completed_reply_def failed_reply_def)



subsection \<open>Attempts and retries\<close>

lemma submit_request_effect [simp]:
  "events (snd (submit_request p w)) = events w @ [Submit p]"
  "files (snd (submit_request p w)) = files w"
  "replies (snd (submit_request p w)) = stl (replies w)"
  by (simp_all add: submit_request_def case_prod_beta)

lemma fetch_result_effect [simp]:
  "submits (events (snd (fetch_result url w))) = submits (events w)"
  "polls (events (snd (fetch_result url w))) = polls (events w)"
  "files (snd (fetch_result url w)) = files w"
  by (cases url rule: url_arg_cases; simp add: fetch_result_def case_prod_beta)+

lemma write_open_files [simp]:
  "files (write_bytes path bs (open_wb path w)) = (files w)(path \<mapsto> bs)"
  by (simp add: write_bytes_def open_wb_def)

lemma write_open_events [simp]:
  "events (write_bytes path bs (open_wb path w)) = events w"
  "replies (write_bytes path bs (open_wb path w)) = replies w"
  by (simp_all add: write_bytes_def open_wb_def)

lemma download_image_effect [simp]:
  "submits (events (snd (download_image url d w))) = submits (events w)"
  "polls (events (snd (download_image url d w))) = polls (events w)"
  by (cases url rule: url_arg_cases;
      simp add: download_image_def case_prod_beta split: sum.splits)+

lemma poll_until_done_effect [simp]:
  "submits (events (snd (poll_until_done url w))) = submits (events w)"
  "files (snd (poll_until_done url w)) = files w"
  using poll_loop_bound[of MAX_POLL_ATTEMPTS url w] by (simp_all add: poll_until_done_def)



lemma liftE_effect [simp]: "snd (liftE r w) = w" "fst (liftE r w) = r"
  by (simp_all add: liftE_def)




lemma generate_single_resumed:
  assumes "\<not> force" "exists_nonempty w (dest_path_of tid)"
  shows "generate_single tid p force w = (True, w)"
  using assms by (simp add: generate_single_def)

subsection \<open>The orchestrator\<close>

lemma classify_filter:
  "classify ids by_id force w =
     (length (filter (\<lambda>tid. by_id tid \<noteq> None \<and> \<not> force \<and> exists_nonempty w (dest_path_of tid)) ids),
      filter (\<lambda>tid. by_id tid \<noteq> None \<and> (force \<or> \<not> exists_nonempty w (dest_path_of tid))) ids)"
  by (induction ids) (auto simp: case_prod_beta)



lemma process_all_done:
  assumes "\<forall>tid \<in> set ids. agents_by_id collection tid \<noteq> None \<longrightarrow> exists_nonempty w (dest_path_of tid)"
  shows "process ids False collection w =
           Inr (\<lparr> successes = 0, failures = 0, failed_ids = [],
                  skipped = length (filter (\<lambda>tid. agents_by_id collection tid \<noteq> None) ids) \<rparr>, w)"
proof -
  have f1: "filter (\<lambda>tid. agents_by_id collection tid \<noteq> None \<and> \<not> exists_nonempty w (dest_path_of tid)) ids = []"
    using assms by (auto simp: filter_empty_conv)
  have f2: "filter (\<lambda>tid. agents_by_id collection tid \<noteq> None \<and> exists_nonempty w (dest_path_of tid)) ids
            = filter (\<lambda>tid. agents_by_id collection tid \<noteq> None) ids"
    using assms by (intro filter_cong) auto
  show ?thesis using f1 f2 by (simp add: process_def classify_filter Let_def)
qed

lemma dest_path_7: "dest_path_of 7 = ''output/images/0007.png''"
  by (simp add: dest_path_of_def IMAGES_DIR_def format_04d_def zero_pad_def digits.simps numeral_3_eq_3)


lemma cycle2 [simp]:
  "shd (cycle [a, b]) = a" "stl (cycle [a, b]) = cycle [b, a]"
  by (simp_all)




text \<open>
  Claim C2. When the redo flag is off and the image file of an item exists with non-zero
  size, \<open>generate_single\<close> returns \<open>True\<close> and leaves the world as it was: no request is
  sent, no reply is consumed, no file is written; and \<open>main\<close> does not even put the item
  on its list of items to generate. When this holds for every requested item of the
  collection, the whole run leaves the world unchanged and reports the items as skipped.
\<close>

theorem resume_before_network:
  "(\<not> force \<and> files w (dest_path_of tid) = Some content \<and> content \<noteq> [] \<longrightarrow>
      generate_single tid p force w = (True, w)
      \<and> tid \<notin> set (snd (classify ids by_id force w)))
   \<and> ((\<forall>tid \<in> set ids. agents_by_id collection tid \<noteq> None \<longrightarrow>
          (\<exists>content. files w (dest_path_of tid) = Some content \<and> content \<noteq> [])) \<longrightarrow>
       process ids False collection w =
         Inr (\<lparr> successes = 0, failures = 0, failed_ids = [],
                skipped = length (filter (\<lambda>tid. agents_by_id collection tid \<noteq> None) ids) \<rparr>, w))"
proof (intro conjI impI)
  assume h: "\<not> force \<and> files w (dest_path_of tid) = Some content \<and> content \<noteq> []"
  then have e: "exists_nonempty w (dest_path_of tid)" by (simp add: exists_nonempty_def)
  show "generate_single tid p force w = (True, w)"
    using h e by (intro generate_single_resumed) simp_all
  show "tid \<notin> set (snd (classify ids by_id force w))"
    using h e by (simp add: classify_filter)
next
  assume "\<forall>tid \<in> set ids. agents_by_id collection tid \<noteq> None \<longrightarrow>
          (\<exists>content. files w (dest_path_of tid) = Some content \<and> content \<noteq> [])"
  then have "\<forall>tid \<in> set ids. agents_by_id collection tid \<noteq> None \<longrightarrow> exists_nonempty w (dest_path_of tid)"
    by (auto simp: exists_nonempty_def)
  then show "process ids False collection w =
         Inr (\<lparr> successes = 0, failures = 0, failed_ids = [],
                skipped = length (filter (\<lambda>tid. agents_by_id collection tid \<noteq> None) ids) \<rparr>, w)"
    by (rule process_all_done)
qed

text \<open>Item 7 is on disk; item 8 is not in the collection.\<close>

theorem resume_before_network_witness:
  "generate_single 7 ''Chibi agent'' False stored_world = (True, stored_world)
   \<and> 7 \<notin> set (snd (classify [7, 8] (agents_by_id [example_agent 7]) False stored_world))
   \<and> process [7, 8] False [example_agent 7] stored_world =
        Inr (\<lparr> successes = 0, failures = 0, failed_ids = [], skipped = 1 \<rparr>, stored_world)"
proof -
  have by_id: "agents_by_id [example_agent 7] 7 \<noteq> None" "agents_by_id [example_agent 7] 8 = None"
    by (simp_all add: agents_by_id_def example_agent_def)
  have h1: "\<not> False \<and> files stored_world (dest_path_of 7) = Some ''PNG-bytes'' \<and> ''PNG-bytes'' \<noteq> []"
    by (simp add: stored_world_def world_of_def dest_path_7)
  have h2: "\<forall>tid \<in> set [7, 8]. agents_by_id [example_agent 7] tid \<noteq> None \<longrightarrow>
          (\<exists>content. files stored_world (dest_path_of tid) = Some content \<and> content \<noteq> [])"
    using by_id h1 by simp
  note t1 = resume_before_network[of False stored_world 7 "''PNG-bytes''" "''Chibi agent''"
      "[7, 8]" "agents_by_id [example_agent 7]", THEN conjunct1, THEN mp, OF h1]
  note t2 = resume_before_network[of False stored_world 7 "''PNG-bytes''" "''Chibi agent''"
      "[7, 8]" "agents_by_id [example_agent 7]" "[example_agent 7]", THEN conjunct2, THEN mp, OF h2]
  show ?thesis using t1 t2 by_id by simp
qed



subsection \<open>Extraction of the image reference\<close>







subsection \<open>Download and persistence\<close>




end
